theory Spec2Isabelle
  imports Main "HOL-Library.Sublist"
begin

section \<open>Descriptor trees\<close>

text \<open>
  The deserialized descriptor is an untyped Python value. The constructors are the
  shapes the factory distinguishes with \<open>isinstance\<close>: \<open>None\<close>, a boolean (the
  \<open>False\<close> sentinel of \<open>mod_data.get(key, False)\<close>), a string, a list and a
  dictionary. A dictionary is an association list in insertion order; a well-formed
  one has distinct keys. Strings are ASCII texts.
\<close>

datatype pyval =
    PNone
  | PBool bool
  | PStr string
  | PList "pyval list"
  | PDict "(string \<times> pyval) list"

type_synonym pydict = "(string \<times> pyval) list"

datatype error =
    ValueError
  | KeyError
  | TypeError
  | AttributeError
  | NotImplementedError
  | DeserializeError
  | BadIdentifier
  | ReError
  | RegexNotModelled

text \<open>\<open>d.get(key, default)\<close>\<close>

definition dict_get :: "pydict \<Rightarrow> string \<Rightarrow> pyval \<Rightarrow> pyval" where
  "dict_get d k dflt = (case map_of d k of None \<Rightarrow> dflt | Some v \<Rightarrow> v)"

text \<open>Python truthiness, as used by \<open>if x:\<close> and \<open>not x\<close>.\<close>

fun truthy :: "pyval \<Rightarrow> bool" where
  "truthy PNone = False"
| "truthy (PBool b) = b"
| "truthy (PStr s) = (s \<noteq> [])"
| "truthy (PList xs) = (xs \<noteq> [])"
| "truthy (PDict d) = (d \<noteq> [])"

fun is_str :: "pyval \<Rightarrow> bool" where
  "is_str (PStr s) = True"
| "is_str _ = False"

fun is_list :: "pyval \<Rightarrow> bool" where
  "is_list (PList xs) = True"
| "is_list _ = False"

fun is_dict :: "pyval \<Rightarrow> bool" where
  "is_dict (PDict d) = True"
| "is_dict _ = False"

section \<open>Value extractor\<close>

text \<open>
  \<open>value_extractor\<close> (metadata_factory.py, lines 36-62). A string is returned as it
  is, a sequence as a list, a dictionary with one entry is entered, a dictionary whose
  key set is exactly \<open>{"@IgnoreIfNoMatchingField", "#text"}\<close> gives its text, any
  other dictionary is returned unchanged. No branch of the \<open>if\<close> chain takes any
  other value, so the function falls off its end and returns \<open>None\<close>.
\<close>

fun value_extractor :: "pyval \<Rightarrow> pyval" where
  "value_extractor (PStr s) = PStr s"
| "value_extractor (PList xs) = PList xs"
| "value_extractor (PDict [(k, v)]) = value_extractor v"
| "value_extractor (PDict d) =
     (if set (map fst d) = {''@IgnoreIfNoMatchingField'', ''#text''}
      then (case map_of d ''#text'' of Some v \<Rightarrow> v | None \<Rightarrow> PDict d)
      else PDict d)"
| "value_extractor PNone = PNone"
| "value_extractor (PBool b) = PNone"

text \<open>\<open>value_extractor(mod_data.get(key, False))\<close>, the reading of a field of the descriptor.\<close>

definition field_value :: "pydict \<Rightarrow> string \<Rightarrow> pyval" where
  "field_value mod_data key = value_extractor (dict_get mod_data key (PBool False))"

section \<open>Version matcher\<close>

text \<open>\<open>target_version.split(".")\<close>: the pieces between the dots, at least one piece.\<close>

fun split_dot :: "string \<Rightarrow> string list" where
  "split_dot [] = [[]]"
| "split_dot (c # cs) =
     (if c = CHR ''.'' then [] # split_dot cs
      else (case split_dot cs of w # ws \<Rightarrow> (c # w) # ws | [] \<Rightarrow> [[c]]))"

text \<open>
  The characters with a meaning of their own in a Python regular expression; every
  other character of a pattern stands for itself.
\<close>

definition regex_special :: "char \<Rightarrow> bool" where
  "regex_special c = (c \<in> set ''.^$*+?{}[]|()'' \<or> c = CHR 0x5C)"

text \<open>\<open>rf"v{major}\.{minor}"\<close>: the two pieces are pasted into the pattern as they are.\<close>

definition version_regex :: "string \<Rightarrow> string \<Rightarrow> string" where
  "version_regex major minor = ''v'' @ major @ [CHR 0x5C, CHR ''.''] @ minor"

text \<open>
  The regular expressions of the language are a library; the part of their syntax
  embedded here is a sequence of items, each an atom with a repetition. An atom is a
  character that stands for itself, an escaped punctuation character, or the dot,
  which matches any character but a newline. A repetition is none, \<open>?\<close>, \<open>*\<close> or
  \<open>+\<close>, greedy or lazy. A pattern that uses anything else (groups, alternatives,
  classes, anchors, counted repetitions, escapes of letters and digits, possessive
  repetitions) has the outcome \<open>RegexNotModelled\<close>. \<open>ReError\<close> is the exception
  \<open>re.error\<close> of a pattern that does not compile.
\<close>

datatype atom = Lit char | AnyChar

datatype quant = One | Opt | Star | Plus

type_synonym regex = "(atom \<times> quant) list"

definition ascii_alnum :: "char \<Rightarrow> bool" where
  "ascii_alnum c =
     (c \<in> set ''abcdefghijklmnopqrstuvwxyzABCDEFGHIJKLMNOPQRSTUVWXYZ0123456789'')"

text \<open>
  The atom at the head of a pattern and the rest after it. A backslash before a
  character that is no ASCII letter or digit makes that character stand for itself; at
  the end of the pattern it is an error, as is a repetition with nothing to repeat.
\<close>

definition read_atom :: "char \<Rightarrow> string \<Rightarrow> error + atom \<times> string" where
  "read_atom c rest =
     (if c = CHR 0x5C
      then (case rest of
              [] \<Rightarrow> Inl ReError
            | d # r \<Rightarrow> (if ascii_alnum d then Inl RegexNotModelled else Inr (Lit d, r)))
      else if c = CHR ''.'' then Inr (AnyChar, rest)
      else if c \<in> set ''*+?'' then Inl ReError
      else if c \<in> set ''^$()[{|'' then Inl RegexNotModelled
      else Inr (Lit c, rest))"

definition quant_of :: "char \<Rightarrow> quant option" where
  "quant_of c =
     (if c = CHR ''*'' then Some Star
      else if c = CHR ''+'' then Some Plus
      else if c = CHR ''?'' then Some Opt
      else None)"

text \<open>
  The repetition that follows an atom and the rest after it. A \<open>?\<close> after a
  repetition makes it lazy, which does not change whether there is a match. \<open>None\<close>
  marks what is not embedded: a brace, and a further repetition sign.
\<close>

fun read_quant :: "string \<Rightarrow> (quant \<times> string) option" where
  "read_quant [] = Some (One, [])"
| "read_quant (c # rest) =
     (case quant_of c of
        None \<Rightarrow> (if c = CHR ''{'' then None else Some (One, c # rest))
      | Some q \<Rightarrow>
          (case rest of
             [] \<Rightarrow> Some (q, [])
           | d # r \<Rightarrow>
               (if d = CHR ''?''
                then (case r of
                        [] \<Rightarrow> Some (q, [])
                      | e # r' \<Rightarrow> (if e \<in> set ''*+?{'' then None else Some (q, r)))
                else if d \<in> set ''*+{'' then None
                else Some (q, rest))))"

function parse_regex :: "string \<Rightarrow> error + regex" where
  "parse_regex [] = Inr []"
| "parse_regex (c # rest) =
     (case read_atom c rest of
        Inl e \<Rightarrow> Inl e
      | Inr (a, rest1) \<Rightarrow>
          (case read_quant rest1 of
             None \<Rightarrow> Inl RegexNotModelled
           | Some (q, rest2) \<Rightarrow>
               (case parse_regex rest2 of
                  Inl e \<Rightarrow> Inl e
                | Inr items \<Rightarrow> Inr ((a, q) # items))))"
  by pat_completeness auto
termination
proof (relation "measure length")
  show "wf (measure length)" by simp
next
  fix c rest x a rest1 y q rest2
  assume "read_atom c rest = Inr x" "(a, rest1) = x" "read_quant rest1 = Some y" "(q, rest2) = y"
  then have ra: "read_atom c rest = Inr (a, rest1)" and rq: "read_quant rest1 = Some (q, rest2)"
    by simp_all
  have "length rest1 \<le> length rest"
    using ra by (auto simp: read_atom_def split: if_splits list.splits)
  moreover have "length rest2 \<le> length rest1"
    using rq by (cases rest1) (auto split: option.splits if_splits list.splits)
  ultimately show "(rest2, c # rest) \<in> measure length" by simp
qed

fun atom_ok :: "atom \<Rightarrow> char \<Rightarrow> bool" where
  "atom_ok (Lit l) c = (c = l)"
| "atom_ok AnyChar c = (c \<noteq> CHR 0x0A)"

text \<open>Whether the items match a text from its start on, whatever follows the match.\<close>

function match_items :: "regex \<Rightarrow> string \<Rightarrow> bool" where
  "match_items [] s = True"
| "match_items ((a, One) # r) s =
     (case s of [] \<Rightarrow> False | c # cs \<Rightarrow> atom_ok a c \<and> match_items r cs)"
| "match_items ((a, Opt) # r) s =
     (match_items r s
      \<or> (case s of [] \<Rightarrow> False | c # cs \<Rightarrow> atom_ok a c \<and> match_items r cs))"
| "match_items ((a, Star) # r) s =
     (match_items r s
      \<or> (case s of [] \<Rightarrow> False | c # cs \<Rightarrow> atom_ok a c \<and> match_items ((a, Star) # r) cs))"
| "match_items ((a, Plus) # r) s =
     (case s of [] \<Rightarrow> False | c # cs \<Rightarrow> atom_ok a c \<and> match_items ((a, Star) # r) cs)"
  by pat_completeness auto
termination
  by (relation "measures [\<lambda>(r, s). length s, \<lambda>(r, s). length r]") auto

text \<open>
  \<open>re.match(pattern, key)\<close>: the pattern is compiled, then matched at the start of
  the key only; the result is read as a truth value.
\<close>

definition re_match :: "string \<Rightarrow> string \<Rightarrow> error + bool" where
  "re_match pattern key =
     (case parse_regex pattern of
        Inl e \<Rightarrow> Inl e
      | Inr r \<Rightarrow> Inr (match_items r key))"

text \<open>
  \<open>match_version\<close> (lines 65-89). The loop over \<open>input.items()\<close> carries the list
  \<open>results\<close>; with \<open>stop_at_first\<close> the first matching value is returned at once.
\<close>

fun match_loop ::
  "string \<Rightarrow> bool \<Rightarrow> pydict \<Rightarrow> pyval list \<Rightarrow> error + (bool \<times> pyval list option)" where
  "match_loop rx stop [] results =
     (if results = [] then Inr (False, None) else Inr (True, Some results))"
| "match_loop rx stop ((key, val) # items) results =
     (case re_match rx key of
        Inl e \<Rightarrow> Inl e
      | Inr True \<Rightarrow>
          (if stop then Inr (True, Some [val])
           else match_loop rx stop items (results @ [val]))
      | Inr False \<Rightarrow> match_loop rx stop items results)"

text \<open>
  \<open>major, minor = target_version.split(".")[:2]\<close> raises \<open>ValueError\<close> when the
  slice has fewer than two pieces, that is when the target has no dot.
\<close>

definition match_version ::
  "pydict \<Rightarrow> string \<Rightarrow> bool \<Rightarrow> error + (bool \<times> pyval list option)" where
  "match_version input target_version stop_at_first =
     (case take 2 (split_dot target_version) of
        [major, minor] \<Rightarrow> match_loop (version_regex major minor) stop_at_first input []
      | _ \<Rightarrow> Inl ValueError)"

section \<open>Identifier types\<close>

definition lower_char :: "char \<Rightarrow> char" where
  "lower_char c =
     (case map_of (zip ''ABCDEFGHIJKLMNOPQRSTUVWXYZ'' ''abcdefghijklmnopqrstuvwxyz'') c of
        Some l \<Rightarrow> l
      | None \<Rightarrow> c)"

text \<open>
  The class \<open>CaseInsensitiveStr\<close> of metadata_structure.py is missing; its tests
  (test_metadata_structure.py) fix what it does. \<open>test_case_insensitive_str\<close>
  (lines 27-39) asserts \<open>str(CaseInsensitiveStr(pid)) == string\<close> with \<open>string\<close>
  the lower-case form of \<open>pid\<close>, so the text an identifier carries is the
  case-folded one. Two identifiers are equal, as dictionary keys too, exactly when
  these texts are equal.
\<close>

definition CaseInsensitiveStr :: "string \<Rightarrow> string" where
  "CaseInsensitiveStr s = map lower_char s"

text \<open>
  Modelled from the spec: the class \<open>CaseInsensitiveSet\<close> of metadata_structure.py is
  missing. An IdentifierSet is an unordered collection of identifiers under
  case-folded equality (spec section 3), and its tests iterate it to lower-case texts.
  The spec defines it on strings only; an element that is not a string is reported as
  \<open>BadIdentifier\<close>.
\<close>

fun the_strs :: "pyval list \<Rightarrow> string list option" where
  "the_strs [] = Some []"
| "the_strs (PStr s # xs) = map_option ((#) s) (the_strs xs)"
| "the_strs (_ # xs) = None"

definition CaseInsensitiveSet :: "pyval list \<Rightarrow> error + string set" where
  "CaseInsensitiveSet xs =
     (case the_strs xs of
        None \<Rightarrow> Inl BadIdentifier
      | Some ss \<Rightarrow> Inr (set (map CaseInsensitiveStr ss)))"

text \<open>\<open>sub in s\<close> on strings.\<close>

fun str_contains :: "string \<Rightarrow> string \<Rightarrow> bool" where
  "str_contains sub [] = (sub = [])"
| "str_contains sub (c # cs) = (prefix sub (c # cs) \<or> str_contains sub cs)"

section \<open>Integers and their texts\<close>

definition py_space :: "char \<Rightarrow> bool" where
  "py_space c = (c \<in> set [CHR 0x09, CHR 0x0A, CHR 0x0B, CHR 0x0C, CHR 0x0D,
                            CHR 0x1C, CHR 0x1D, CHR 0x1E, CHR 0x1F, CHR 0x20])"

definition digit_val :: "char \<Rightarrow> nat option" where
  "digit_val c = map_of (zip ''0123456789'' [0, 1, 2, 3, 4, 5, 6, 7, 8, 9]) c"

text \<open>
  The digits of a decimal literal: groups of digits with single underscores between
  them. The flag says that a digit has to come next.
\<close>

fun parse_digits :: "nat \<Rightarrow> bool \<Rightarrow> string \<Rightarrow> nat option" where
  "parse_digits acc need [] = (if need then None else Some acc)"
| "parse_digits acc need (c # cs) =
     (case digit_val c of
        Some d \<Rightarrow> parse_digits (acc * 10 + d) False cs
      | None \<Rightarrow> (if c = CHR ''_'' \<and> \<not> need then parse_digits acc True cs else None))"

definition py_strip :: "string \<Rightarrow> string" where
  "py_strip s = rev (dropWhile py_space (rev (dropWhile py_space s)))"

text \<open>\<open>int(s)\<close> on a string: \<open>None\<close> stands for the \<open>ValueError\<close> it raises.\<close>

definition py_int :: "string \<Rightarrow> int option" where
  "py_int s =
     (case py_strip s of
        [] \<Rightarrow> None
      | c # cs \<Rightarrow>
          (if c = CHR ''-'' then map_option (\<lambda>n. - int n) (parse_digits 0 True cs)
           else if c = CHR ''+'' then map_option int (parse_digits 0 True cs)
           else map_option int (parse_digits 0 True (c # cs))))"

fun nat_digits :: "nat \<Rightarrow> string" where
  "nat_digits n =
     (if n < 10 then [''0123456789'' ! n]
      else nat_digits (n div 10) @ [''0123456789'' ! (n mod 10)])"

declare nat_digits.simps [simp del]

text \<open>\<open>str(n)\<close> on an integer.\<close>

definition py_str :: "int \<Rightarrow> string" where
  "py_str i = (if i < 0 then CHR ''-'' # nat_digits (nat (- i)) else nat_digits (nat i))"

section \<open>Records\<close>

text \<open>
  Modelled from the spec: the classes \<open>ListedMod\<close>, \<open>RuledMod\<close>, \<open>LudeonMod\<close>,
  \<open>DependencyMod\<close> and \<open>BaseRules\<close> of metadata_structure.py are missing. Spec
  section 3 gives their fields: the Base variant has identifier, name, description,
  authors (an ordered list), a supported-version set, a validity flag and a source
  path; the Ruled variant adds a version string, an icon path, an info URL and the
  embedded rule set; the OfficialContent variant adds a numeric content id. One record
  holds the attributes of an object (its \<open>__dict__\<close>) and \<open>cls\<close> is its class, which
  is what \<open>isinstance\<close> reads.
\<close>

datatype mod_class = ListedModC | RuledModC | LudeonModC

text \<open>
  \<open>pathlib.Path(text)\<close>: a path object is kept as the text it was built from. The
  normal form that the library gives the text, which depends on the platform, is not
  unfolded.
\<close>

datatype py_path = Path string

record DependencyMod =
  dep_package_id :: "string option"
  dep_name :: "string option"
  dep_workshop_url :: "string option"

record BaseRules =
  dependencies :: "(string option \<times> DependencyMod) list"
  load_before :: "string set"
  load_after :: "string set"
  incompatible_with :: "string set"

record ListedMod =
  cls :: mod_class
  package_id :: string
  name :: string
  description :: string
  authors :: "pyval list"
  supported_versions :: "pyval set"
  valid :: bool
  mod_path :: "py_path option"
  steam_app_id :: "int option"
  mod_version :: "string option"
  mod_icon_path :: "py_path option"
  url :: "string option"
  about_rules :: "BaseRules option"

text \<open>
  Modelled from the spec: the constructors with no argument, which are missing with
  their classes. A record starts empty and valid (spec section 4.4: "starting
  valid=true"); a dependency starts with no identifier (spec section 4.6).
\<close>

definition ListedMod_new :: ListedMod where
  "ListedMod_new =
     \<lparr>cls = ListedModC, package_id = [], name = [], description = [], authors = [],
      supported_versions = {}, valid = True, mod_path = None, steam_app_id = None,
      mod_version = None, mod_icon_path = None, url = None, about_rules = None\<rparr>"

definition RuledMod_new :: ListedMod where
  "RuledMod_new = ListedMod_new\<lparr>cls := RuledModC\<rparr>"

definition DependencyMod_new :: DependencyMod where
  "DependencyMod_new = \<lparr>dep_package_id = None, dep_name = None, dep_workshop_url = None\<rparr>"

definition BaseRules_new :: BaseRules where
  "BaseRules_new =
     \<lparr>dependencies = [], load_before = {}, load_after = {}, incompatible_with = {}\<rparr>"

text \<open>
  Modelled from the spec: \<open>LudeonMod(**vars(mod), steam_app_id=n)\<close>, the upgrade to
  the OfficialContent variant, which "preserves all previously set fields" (spec
  section 3).
\<close>

definition LudeonMod :: "ListedMod \<Rightarrow> int \<Rightarrow> ListedMod" where
  "LudeonMod m n = m\<lparr>cls := LudeonModC, steam_app_id := Some n\<rparr>"

text \<open>
  The table \<open>RIMWORLD_DLC_METADATA\<close> of app/utils/constants.py is a parameter: a
  dictionary from the text of a content id to the entry of that content.
\<close>

record dlc_entry =
  dlc_packageid :: string
  dlc_name :: string
  dlc_description :: string

type_synonym dlc_table = "(string \<times> dlc_entry) list"

section \<open>Diagnostics\<close>

text \<open>
  The logger is a list of events, one constructor for each message of the factory,
  carrying the values the message prints.
\<close>

datatype log_event =
    PackageIdNotString pyval
  | KnownLudeonPackage string
  | PossiblyLudeon string
  | SteamAppIdMissing string
  | SteamAppIdNotInteger pyval string
  | SteamAppIdFound int string
  | NameNotParsed "string option"
  | DescriptionNotParsed
  | AuthorsNotParsed
  | SupportedVersionsNotParsed
  | DuplicateDependency "string option"
  | InvalidDependency pyval
  | UnableToParse string
  | CouldNotParse string

type_synonym mod_state = "ListedMod \<times> log_event list"

text \<open>\<open>_set_mod_invalid\<close> (lines 112-122).\<close>

definition set_mod_invalid :: "ListedMod \<Rightarrow> log_event \<Rightarrow> log_event list \<Rightarrow> mod_state" where
  "set_mod_invalid m message lg = (m\<lparr>valid := False\<rparr>, lg @ [message])"

section \<open>Record builder: required fields\<close>

text \<open>Lines 133-140: the identifier.\<close>

definition parse_package_id :: "pydict \<Rightarrow> mod_state \<Rightarrow> mod_state" where
  "parse_package_id mod_data st =
     (case st of (m, lg) \<Rightarrow>
        (case field_value mod_data ''packageId'' of
           PStr s \<Rightarrow> (m\<lparr>package_id := CaseInsensitiveStr s\<rparr>, lg)
         | v \<Rightarrow> set_mod_invalid m (PackageIdNotString v) lg))"

text \<open>
  \<open>get_dlc_packageid_appid_map\<close> (lines 384-386): in a dictionary comprehension a
  later entry with the same key replaces an earlier one.
\<close>

definition get_dlc_packageid_appid_map :: "dlc_table \<Rightarrow> string \<Rightarrow> string option" where
  "get_dlc_packageid_appid_map T =
     map_of (rev (map (\<lambda>(appid, dlc). (dlc_packageid dlc, appid)) T))"

text \<open>
  Lines 142-179: the upgrade to official content. In the first branch \<open>int\<close> and
  the two subscripts of the table are outside any \<open>try\<close>. In the second branch the
  \<open>ValueError\<close> of \<open>int\<close> and the one raised for a value that is not a string are
  caught, and the record stays as it is.
\<close>

definition ludeon_upgrade :: "dlc_table \<Rightarrow> pydict \<Rightarrow> mod_state \<Rightarrow> error + mod_state" where
  "ludeon_upgrade T mod_data st =
     (case st of (m, lg) \<Rightarrow>
        (case get_dlc_packageid_appid_map T (package_id m) of
           Some appid \<Rightarrow>
             (case py_int appid of
                None \<Rightarrow> Inl ValueError
              | Some n \<Rightarrow>
                  (case map_of T (py_str n) of
                     None \<Rightarrow> Inl KeyError
                   | Some dlc \<Rightarrow>
                       Inr ((LudeonMod m n)\<lparr>name := dlc_name dlc,
                                               description := dlc_description dlc\<rparr>,
                            lg @ [KnownLudeonPackage (package_id m)])))
         | None \<Rightarrow>
             (if str_contains ''ludeon.'' (package_id m)
              then (let lg1 = lg @ [PossiblyLudeon (package_id m)];
                        app = field_value mod_data ''steamAppId''
                    in (case (case app of PStr s \<Rightarrow> py_int s | _ \<Rightarrow> None) of
                          None \<Rightarrow>
                            Inr (m, lg1 @ [if \<not> truthy app
                                             then SteamAppIdMissing (package_id m)
                                             else SteamAppIdNotInteger app (package_id m)])
                        | Some n \<Rightarrow>
                            Inr ((LudeonMod m n)\<lparr>description := ''Unknown Ludeon mod'',
                                                    name := ''Unknown Ludeon mod''\<rparr>,
                                 lg1 @ [SteamAppIdFound n (package_id m)])))
              else Inr (m, lg))))"

text \<open>
  Lines 181-191: the name. \<open>pid\<close> is the local \<open>package_id\<close> of line 133, the
  extracted value, not the attribute of the record.
\<close>

definition parse_name :: "pydict \<Rightarrow> mod_state \<Rightarrow> mod_state" where
  "parse_name mod_data st =
     (case st of (m, lg) \<Rightarrow>
        (case field_value mod_data ''name'' of
           PStr s \<Rightarrow> (m\<lparr>name := s\<rparr>, lg)
         | _ \<Rightarrow>
             (if cls m \<noteq> LudeonModC
              then (case field_value mod_data ''packageId'' of
                      PStr pid \<Rightarrow>
                        set_mod_invalid (m\<lparr>name := package_id m\<rparr>) (NameNotParsed (Some pid)) lg
                    | _ \<Rightarrow> set_mod_invalid m (NameNotParsed None) lg)
              else (m, lg))))"

text \<open>Lines 193-200: the description.\<close>

definition parse_description :: "pydict \<Rightarrow> mod_state \<Rightarrow> mod_state" where
  "parse_description mod_data st =
     (case st of (m, lg) \<Rightarrow>
        (case field_value mod_data ''description'' of
           PStr s \<Rightarrow> (m\<lparr>description := s\<rparr>, lg)
         | _ \<Rightarrow>
             (if cls m \<noteq> LudeonModC then set_mod_invalid m DescriptionNotParsed lg
              else (m, lg))))"

text \<open>
  What \<open>list.extend\<close> appends: the characters of a string, the elements of a list,
  the keys of a dictionary. \<open>None\<close> and booleans are not iterable.
\<close>

fun py_iter :: "pyval \<Rightarrow> error + pyval list" where
  "py_iter (PStr s) = Inr (map (\<lambda>c. PStr [c]) s)"
| "py_iter (PList xs) = Inr xs"
| "py_iter (PDict d) = Inr (map (\<lambda>(k, v). PStr k) d)"
| "py_iter _ = Inl TypeError"

text \<open>Lines 202-214: the authors.\<close>

definition parse_authors :: "pydict \<Rightarrow> mod_state \<Rightarrow> error + mod_state" where
  "parse_authors mod_data st =
     (case st of (m, lg) \<Rightarrow>
        (let author = field_value mod_data ''author'';
             authors_val = field_value mod_data ''authors'';
             mod1 = (case author of
                       PStr s \<Rightarrow> m\<lparr>authors := authors m @ [PStr s]\<rparr>
                     | _ \<Rightarrow> m)
         in (case (if truthy authors_val
                   then (case py_iter authors_val of
                           Inl e \<Rightarrow> Inl e
                         | Inr xs \<Rightarrow> Inr (mod1\<lparr>authors := authors mod1 @ xs\<rparr>))
                   else Inr mod1) of
               Inl e \<Rightarrow> Inl e
             | Inr mod2 \<Rightarrow>
                 (if \<not> (truthy author \<or> truthy authors_val) \<and> cls mod2 \<noteq> LudeonModC
                  then Inr (set_mod_invalid mod2 AuthorsNotParsed lg)
                  else Inr (mod2, lg)))))"

text \<open>\<open>set(xs)\<close> raises \<open>TypeError\<close> on an element that cannot be hashed.\<close>

fun hashable :: "pyval \<Rightarrow> bool" where
  "hashable (PList xs) = False"
| "hashable (PDict d) = False"
| "hashable _ = True"

text \<open>Lines 216-225: the supported versions.\<close>

definition parse_supported_versions :: "pydict \<Rightarrow> mod_state \<Rightarrow> error + mod_state" where
  "parse_supported_versions mod_data st =
     (case st of (m, lg) \<Rightarrow>
        (case field_value mod_data ''supportedVersions'' of
           PList xs \<Rightarrow>
             (if list_all hashable xs then Inr (m\<lparr>supported_versions := set xs\<rparr>, lg)
              else Inl TypeError)
         | PStr s \<Rightarrow> Inr (m\<lparr>supported_versions := {PStr s}\<rparr>, lg)
         | _ \<Rightarrow>
             (if cls m \<noteq> LudeonModC
              then Inr (set_mod_invalid m SupportedVersionsNotParsed lg)
              else Inr (m, lg))))"

text \<open>\<open>_parse_required\<close> (lines 125-227): the steps in their order.\<close>

definition parse_required :: "dlc_table \<Rightarrow> pydict \<Rightarrow> ListedMod \<Rightarrow> error + mod_state" where
  "parse_required T mod_data m =
     (case ludeon_upgrade T mod_data (parse_package_id mod_data (m, [])) of
        Inl e \<Rightarrow> Inl e
      | Inr st2 \<Rightarrow>
          (case parse_authors mod_data (parse_description mod_data (parse_name mod_data st2)) of
             Inl e \<Rightarrow> Inl e
           | Inr st5 \<Rightarrow> parse_supported_versions mod_data st5))"

section \<open>Rule builder\<close>

text \<open>\<open>create_mod_dependency\<close> (lines 339-359).\<close>

definition create_mod_dependency :: "pydict \<Rightarrow> DependencyMod" where
  "create_mod_dependency input_dict =
     (let m0 = DependencyMod_new;
          m1 = (case dict_get input_dict ''packageId'' (PBool False) of
                  PStr s \<Rightarrow> m0\<lparr>dep_package_id := Some (CaseInsensitiveStr s)\<rparr>
                | _ \<Rightarrow> m0);
          m2 = (case dict_get input_dict ''displayName'' (PBool False) of
                  PStr s \<Rightarrow> m1\<lparr>dep_name := Some s\<rparr>
                | _ \<Rightarrow> m1)
      in (case dict_get input_dict ''workshopUrl'' (PBool False) of
            PStr s \<Rightarrow> m2\<lparr>dep_workshop_url := Some s\<rparr>
          | _ \<Rightarrow> m2))"

text \<open>\<open>x if isinstance(x, list) else [x]\<close>\<close>

definition as_list :: "pyval \<Rightarrow> pyval list" where
  "as_list v = (case v of PList xs \<Rightarrow> xs | _ \<Rightarrow> [v])"

text \<open>
  The merge of the version-conditioned entries, written three times in the source
  (lines 270-273, 297-300 and 329-332): when the extracted value is a dictionary, all
  its entries that match the target are appended.
\<close>

definition extend_versioned :: "pyval list \<Rightarrow> pyval \<Rightarrow> string \<Rightarrow> error + pyval list" where
  "extend_versioned xs versioned target_version =
     (case versioned of
        PDict d \<Rightarrow>
          (case match_version d target_version False of
             Inl e \<Rightarrow> Inl e
           | Inr (found, res) \<Rightarrow>
               (case res of
                  None \<Rightarrow> Inr xs
                | Some ys \<Rightarrow> (if ys \<noteq> [] then Inr (xs @ ys) else Inr xs)))
      | _ \<Rightarrow> Inr xs)"

text \<open>
  The loop of lines 275-288 over the dependency entries. The state is the dictionary
  \<open>rules.dependencies\<close>, in insertion order, and the log.
\<close>

fun dependency_loop ::
  "pyval list \<Rightarrow> (string option \<times> DependencyMod) list \<times> log_event list \<Rightarrow>
   (string option \<times> DependencyMod) list \<times> log_event list" where
  "dependency_loop [] st = st"
| "dependency_loop (PDict d # rest) (deps, lg) =
     (let dep = create_mod_dependency d
      in (if dep_package_id dep \<in> set (map fst deps)
          then dependency_loop rest (deps, lg @ [DuplicateDependency (dep_package_id dep)])
          else dependency_loop rest (deps @ [(dep_package_id dep, dep)], lg)))"
| "dependency_loop (dependency # rest) (deps, lg) =
     dependency_loop rest (deps, lg @ [InvalidDependency dependency])"

text \<open>
  \<open>load_operations\<close> (lines 290-306), first the list \<open>load\<close> as it stands before
  line 306, then the identifier set made of it.
\<close>

definition load_operations_list ::
  "pydict \<Rightarrow> string \<Rightarrow> string \<Rightarrow> string \<Rightarrow> error + pyval list" where
  "load_operations_list mod_data key force_key target_version =
     (case extend_versioned
             (as_list (value_extractor (dict_get mod_data key (PList []))))
             (value_extractor (dict_get mod_data (key @ ''ByVersion'') (PDict [])))
             target_version of
        Inl e \<Rightarrow> Inl e
      | Inr load \<Rightarrow>
          Inr (load @ as_list (value_extractor (dict_get mod_data force_key (PList [])))))"

definition load_operations ::
  "pydict \<Rightarrow> string \<Rightarrow> string \<Rightarrow> string \<Rightarrow> error + string set" where
  "load_operations mod_data key force_key target_version =
     (case load_operations_list mod_data key force_key target_version of
        Inl e \<Rightarrow> Inl e
      | Inr load \<Rightarrow> CaseInsensitiveSet load)"

text \<open>\<open>create_base_rules\<close> (lines 256-336).\<close>

definition create_base_rules :: "pydict \<Rightarrow> string \<Rightarrow> error + BaseRules \<times> log_event list" where
  "create_base_rules mod_data target_version =
     (case extend_versioned
             (as_list (value_extractor (dict_get mod_data ''modDependencies'' (PList []))))
             (value_extractor (dict_get mod_data ''modDependenciesByVersion'' (PDict [])))
             target_version of
        Inl e \<Rightarrow> Inl e
      | Inr mod_dependencies \<Rightarrow>
          (case dependency_loop mod_dependencies (dependencies BaseRules_new, []) of
             (deps, lg) \<Rightarrow>
               (case load_operations mod_data ''loadBefore'' ''forceLoadBefore'' target_version of
                  Inl e \<Rightarrow> Inl e
                | Inr before_set \<Rightarrow>
                    (case load_operations mod_data ''loadAfter'' ''forceLoadAfter''
                            target_version of
                       Inl e \<Rightarrow> Inl e
                     | Inr after_set \<Rightarrow>
                         (case extend_versioned
                                 (as_list (value_extractor
                                    (dict_get mod_data ''incompatibleWith'' (PList []))))
                                 (value_extractor
                                    (dict_get mod_data ''incompatibleWithByVersion'' (PDict [])))
                                 target_version of
                            Inl e \<Rightarrow> Inl e
                          | Inr incompatible \<Rightarrow>
                              (case CaseInsensitiveSet incompatible of
                                 Inl e \<Rightarrow> Inl e
                               | Inr incompatible_set \<Rightarrow>
                                   Inr (BaseRules_new\<lparr>dependencies := deps,
                                                        load_before := before_set,
                                                        load_after := after_set,
                                                        incompatible_with := incompatible_set\<rparr>,
                                        lg)))))))"

section \<open>Record builder: optional fields\<close>

text \<open>An optional field is taken when its value is a string that is not empty.\<close>

definition opt_str :: "pyval \<Rightarrow> string option" where
  "opt_str v = (case v of PStr s \<Rightarrow> (if s \<noteq> [] then Some s else None) | _ \<Rightarrow> None)"

text \<open>
  Lines 237-251 of \<open>_parse_optional\<close>: the record and the log as they stand when
  line 253 is reached.
\<close>

definition parse_optional_fill :: "pydict \<Rightarrow> mod_state \<Rightarrow> string \<Rightarrow> error + mod_state" where
  "parse_optional_fill mod_data st target_version =
     (case st of (m, lg) \<Rightarrow>
        (let m1 = (case opt_str (field_value mod_data ''modVersion'') of
                     Some s \<Rightarrow> m\<lparr>mod_version := Some s\<rparr>
                   | None \<Rightarrow> m);
             m2 = (case opt_str (field_value mod_data ''modIconPath'') of
                     Some s \<Rightarrow> m1\<lparr>mod_icon_path := Some (Path s)\<rparr>
                   | None \<Rightarrow> m1);
             m3 = (case opt_str (field_value mod_data ''url'') of
                     Some s \<Rightarrow> m2\<lparr>url := Some s\<rparr>
                   | None \<Rightarrow> m2)
         in (case create_base_rules mod_data target_version of
               Inl e \<Rightarrow> Inl e
             | Inr (rules, lg') \<Rightarrow> Inr (m3\<lparr>about_rules := Some rules\<rparr>, lg @ lg'))))"

text \<open>
  \<open>_parse_optional\<close> (lines 230-253): the last statement of the body is
  \<open>raise NotImplementedError\<close>, and the function has no \<open>return\<close>.
\<close>

definition parse_optional :: "pydict \<Rightarrow> mod_state \<Rightarrow> string \<Rightarrow> error + mod_state" where
  "parse_optional mod_data st target_version =
     (case parse_optional_fill mod_data st target_version of
        Inl e \<Rightarrow> Inl e
      | Inr st' \<Rightarrow> Inl NotImplementedError)"

section \<open>Factory and entry point\<close>

text \<open>
  \<open>create_listed_mod\<close> (lines 92-109). A record that is not of class \<open>RuledMod\<close>
  gets that class and keeps its attributes (lines 102-105).
\<close>

definition create_listed_mod ::
  "dlc_table \<Rightarrow> pydict \<Rightarrow> string \<Rightarrow> error + (bool \<times> ListedMod) \<times> log_event list" where
  "create_listed_mod T mod_data target_version =
     (case parse_required T mod_data RuledMod_new of
        Inl e \<Rightarrow> Inl e
      | Inr (m, lg) \<Rightarrow>
          (let m1 = (if cls m \<noteq> RuledModC then m\<lparr>cls := RuledModC\<rparr> else m)
           in (case parse_optional mod_data (m1, lg) target_version of
                 Inl e \<Rightarrow> Inl e
               | Inr (m2, lg2) \<Rightarrow> Inr ((valid m2, m2), lg2))))"

text \<open>\<open>x[key]\<close>: only a dictionary can be subscripted by a string.\<close>

definition subscript :: "pyval \<Rightarrow> string \<Rightarrow> error + pyval" where
  "subscript x key =
     (case x of
        PDict d \<Rightarrow> (case map_of d key of None \<Rightarrow> Inl KeyError | Some v \<Rightarrow> Inr v)
      | _ \<Rightarrow> Inl TypeError)"

definition invalid_mod :: ListedMod where
  "invalid_mod = ListedMod_new\<lparr>valid := False\<rparr>"

text \<open>
  \<open>create_listed_mod_from_xml\<close> (lines 362-381). The deserializer
  \<open>xml_path_to_json\<close> of app/utils/xml.py is a parameter: for a path it gives the
  tree or the exception it raises. Only lines 365-371 are inside the \<open>try\<close>. A
  value that is not a dictionary has no method \<open>get\<close>.
\<close>

definition create_listed_mod_from_xml ::
  "dlc_table \<Rightarrow> (string \<Rightarrow> error + pyval) \<Rightarrow> string \<Rightarrow> string \<Rightarrow>
   error + (bool \<times> ListedMod) \<times> log_event list" where
  "create_listed_mod_from_xml T xml_path_to_json mod_xml_path target_version =
     (case (case xml_path_to_json mod_xml_path of
              Inl e \<Rightarrow> Inl e
            | Inr root \<Rightarrow> subscript root ''ModMetaData'') of
        Inl e \<Rightarrow> Inr ((False, invalid_mod), [UnableToParse mod_xml_path])
      | Inr mod_data \<Rightarrow>
          (if \<not> truthy mod_data
           then Inr ((False, invalid_mod), [CouldNotParse mod_xml_path])
           else (case mod_data of
                   PDict d \<Rightarrow>
                     (case create_listed_mod T d target_version of
                        Inl e \<Rightarrow> Inl e
                      | Inr ((v, m), lg) \<Rightarrow> Inr ((v, m\<lparr>mod_path := Some (Path mod_xml_path)\<rparr>), lg))
                 | _ \<Rightarrow> Inl AttributeError)))"

section \<open>Conditions under which the record builder raises nothing\<close>

text \<open>
  The table is usable when every content id in it is the text of an integer whose
  canonical text is again a key of the table, so that lines 146-150 find their entries.
\<close>

definition dlc_table_ok :: "dlc_table \<Rightarrow> bool" where
  "dlc_table_ok T =
     list_all (\<lambda>(appid, dlc). case py_int appid of
                                  None \<Rightarrow> False
                                | Some n \<Rightarrow> map_of T (py_str n) \<noteq> None) T"

text \<open>\<open>mod.authors.extend(authors)\<close> of line 209 needs a value that can be iterated.\<close>

definition authors_iterable :: "pydict \<Rightarrow> bool" where
  "authors_iterable mod_data =
     (truthy (field_value mod_data ''authors'') \<longrightarrow>
      (case py_iter (field_value mod_data ''authors'') of Inl e \<Rightarrow> False | Inr xs \<Rightarrow> True))"

text \<open>\<open>set(supported_versions)\<close> of line 218 needs elements that can be hashed.\<close>

definition versions_hashable :: "pydict \<Rightarrow> bool" where
  "versions_hashable mod_data =
     (case field_value mod_data ''supportedVersions'' of
        PList xs \<Rightarrow> list_all hashable xs
      | _ \<Rightarrow> True)"

text \<open>The dictionaries among the entries of a list, in their order.\<close>

fun dict_entries :: "pyval list \<Rightarrow> pydict list" where
  "dict_entries [] = []"
| "dict_entries (PDict d # xs) = d # dict_entries xs"
| "dict_entries (x # xs) = dict_entries xs"

text \<open>
  Two texts differ only by case when they have the same length and, place by place,
  hold the same character or the capital and the small form of one ASCII letter. This
  is written from the words of the claim, not from the class.
\<close>

definition same_letter :: "char \<Rightarrow> char \<Rightarrow> bool" where
  "same_letter a b =
     (a = b
      \<or> (a, b) \<in> set (zip ''ABCDEFGHIJKLMNOPQRSTUVWXYZ'' ''abcdefghijklmnopqrstuvwxyz'')
      \<or> (b, a) \<in> set (zip ''ABCDEFGHIJKLMNOPQRSTUVWXYZ'' ''abcdefghijklmnopqrstuvwxyz''))"

definition differ_only_by_case :: "string \<Rightarrow> string \<Rightarrow> bool" where
  "differ_only_by_case s t = list_all2 same_letter s t"

section \<open>Properties of the version matcher\<close>

lemma split_dot_nonempty: "split_dot s \<noteq> []"
  by (induction s) (auto split: list.splits)

lemma split_dot_no_dot: "CHR ''.'' \<notin> set s \<Longrightarrow> split_dot s = [s]"
  by (induction s) auto

lemma split_dot_at_dot:
  "CHR ''.'' \<notin> set a \<Longrightarrow> split_dot (a @ CHR ''.'' # b) = a # split_dot b"
  by (induction a) auto

lemma special_dot: "regex_special (CHR ''.'')"
  by (simp add: regex_special_def)

lemma plain_read_atom: "\<not> regex_special c \<Longrightarrow> read_atom c rest = Inr (Lit c, rest)"
  by (auto simp: regex_special_def read_atom_def)

lemma plain_quant_of: "\<not> regex_special c \<Longrightarrow> quant_of c = None \<and> c \<noteq> CHR ''{''"
  by (auto simp: regex_special_def quant_of_def)

lemma read_quant_no_sign:
  "s = [] \<or> (quant_of (hd s) = None \<and> hd s \<noteq> CHR ''{'') \<Longrightarrow> read_quant s = Some (One, s)"
  by (cases s) auto

lemma parse_regex_plain_append:
  assumes "\<forall>c \<in> set a. \<not> regex_special c"
    and "q = [] \<or> (quant_of (hd q) = None \<and> hd q \<noteq> CHR ''{'')"
  shows "parse_regex (a @ q) =
           (case parse_regex q of
              Inl e \<Rightarrow> Inl e
            | Inr r \<Rightarrow> Inr (map (\<lambda>c. (Lit c, One)) a @ r))"
  using assms(1)
proof (induction a)
  case Nil
  then show ?case by (simp split: sum.splits)
next
  case (Cons c a)
  then have c: "\<not> regex_special c" and rest: "\<forall>c \<in> set a. \<not> regex_special c"
    by simp_all
  have "a @ q = [] \<or> (quant_of (hd (a @ q)) = None \<and> hd (a @ q) \<noteq> CHR ''{'')"
  proof (cases a)
    case Nil
    then show ?thesis using assms(2) by simp
  next
    case (Cons d a')
    then show ?thesis using rest plain_quant_of [of d] by simp
  qed
  then have rq: "read_quant (a @ q) = Some (One, a @ q)"
    by (rule read_quant_no_sign)
  show ?case
    using Cons.IH [OF rest] plain_read_atom [OF c, of "a @ q"] rq
    by (simp split: sum.splits)
qed

lemma parse_regex_plain:
  "\<forall>c \<in> set a. \<not> regex_special c \<Longrightarrow> parse_regex a = Inr (map (\<lambda>c. (Lit c, One)) a)"
  using parse_regex_plain_append [of a "[]"] by simp

lemma parse_regex_escaped_dot:
  assumes "\<forall>c \<in> set minor. \<not> regex_special c"
  shows "parse_regex (CHR 0x5C # CHR ''.'' # minor)
           = Inr ((Lit CHR ''.'', One) # map (\<lambda>c. (Lit c, One)) minor)"
proof -
  have ra: "read_atom (CHR 0x5C) (CHR ''.'' # minor) = Inr (Lit CHR ''.'', minor)"
    by (simp add: read_atom_def ascii_alnum_def)
  have "minor = [] \<or> (quant_of (hd minor) = None \<and> hd minor \<noteq> CHR ''{'')"
    using assms plain_quant_of [of "hd minor"] by (cases minor) auto
  then have rq: "read_quant minor = Some (One, minor)"
    by (rule read_quant_no_sign)
  show ?thesis using ra rq parse_regex_plain [OF assms] by simp
qed

lemma match_items_literal: "match_items (map (\<lambda>c. (Lit c, One)) p) s = prefix p s"
  by (induction p arbitrary: s) (auto split: list.splits)

lemma parse_regex_version_regex:
  assumes "\<forall>c \<in> set (major @ minor). \<not> regex_special c"
  shows "parse_regex (version_regex major minor)
           = Inr (map (\<lambda>c. (Lit c, One)) (''v'' @ major @ ''.'' @ minor))"
proof -
  have v: "\<forall>c \<in> set (''v'' @ major). \<not> regex_special c"
    using assms by (auto simp: regex_special_def)
  have m: "\<forall>c \<in> set minor. \<not> regex_special c"
    using assms by auto
  have q: "CHR 0x5C # CHR ''.'' # minor = []
           \<or> (quant_of (hd (CHR 0x5C # CHR ''.'' # minor)) = None
               \<and> hd (CHR 0x5C # CHR ''.'' # minor) \<noteq> CHR ''{'')"
    by (simp add: quant_of_def)
  have "version_regex major minor = (''v'' @ major) @ (CHR 0x5C # CHR ''.'' # minor)"
    by (simp add: version_regex_def)
  then show ?thesis
    using parse_regex_plain_append [OF v q] parse_regex_escaped_dot [OF m] by simp
qed

lemma re_match_version_regex:
  assumes "\<forall>c \<in> set (major @ minor). \<not> regex_special c"
  shows "re_match (version_regex major minor) key = Inr (prefix (''v'' @ major @ ''.'' @ minor) key)"
  unfolding re_match_def parse_regex_version_regex [OF assms]
  using match_items_literal [of "''v'' @ major @ ''.'' @ minor" key] by simp

lemma match_loop_all:
  assumes "\<And>key. re_match rx key = Inr (P key)"
  shows "match_loop rx False items res =
     (if res @ map snd (filter (\<lambda>kv. P (fst kv)) items) = [] then Inr (False, None)
      else Inr (True, Some (res @ map snd (filter (\<lambda>kv. P (fst kv)) items))))"
  by (induction items arbitrary: res) (auto simp: assms)

lemma match_loop_first:
  assumes "\<And>key. re_match rx key = Inr (P key)"
  shows "match_loop rx True items [] =
     (case map snd (filter (\<lambda>kv. P (fst kv)) items) of
        [] \<Rightarrow> Inr (False, None)
      | v # vs \<Rightarrow> Inr (True, Some [v]))"
  by (induction items) (auto simp: assms)

lemma take2_split:
  assumes "CHR ''.'' \<notin> set major" "CHR ''.'' \<notin> set minor"
    and "target = major @ ''.'' @ minor \<or> (\<exists>more. target = major @ ''.'' @ minor @ ''.'' @ more)"
  shows "take 2 (split_dot target) = [major, minor]"
proof -
  from assms(3) show ?thesis
  proof
    assume "target = major @ ''.'' @ minor"
    then show ?thesis using assms(1,2) split_dot_at_dot [of major minor]
      by (simp add: split_dot_no_dot)
  next
    assume "\<exists>more. target = major @ ''.'' @ minor @ ''.'' @ more"
    then obtain more where "target = major @ ''.'' @ minor @ ''.'' @ more" ..
    then show ?thesis
      using assms(1,2) split_dot_at_dot [of major "minor @ ''.'' @ more"]
        split_dot_at_dot [of minor more]
      by simp
  qed
qed

text \<open>
  The target \<open>1.*\<close> has the pieces \<open>1\<close> and \<open>*\<close>, which line 77 pastes into the
  pattern as they are: the pattern is \<open>v1\.*\<close>, a \<open>v\<close>, a \<open>1\<close> and any number
  of dots. It matches the labels \<open>v1.5\<close> and \<open>v1\<close>, neither of which begins with
  \<open>v1.*\<close>.
\<close>

theorem unescaped_target_counterexample:
  "match_version [(''v1.5'', PStr ''x''), (''v1'', PStr ''y'')] ''1.*'' False
     = Inr (True, Some [PStr ''x'', PStr ''y''])
   \<and> \<not> prefix ''v1.*'' ''v1.5'' \<and> \<not> prefix ''v1.*'' ''v1''"
  by (simp add: match_version_def version_regex_def re_match_def read_atom_def quant_of_def
      ascii_alnum_def)

text \<open>
  Claim C7, as amended. For a target whose major and minor pieces hold no character
  with a meaning in a regular expression (as the pieces of a version number do not),
  \<open>match_version\<close> matches a label exactly when the label begins with \<open>v\<close>, the
  major piece, a dot and the minor piece; only the first two pieces of the target
  count, so a target \<open>major.minor.more\<close> behaves as \<open>major.minor\<close>. Without
  \<open>stop_at_first\<close> it returns all matching values in the order of the mapping, or
  \<open>(False, None)\<close> when there is none; with \<open>stop_at_first\<close> it returns the first
  matching value alone. A target without a dot raises \<open>ValueError\<close> at the unpacking
  of line 76.
\<close>

theorem match_version_prefix:
  assumes plain: "\<forall>c \<in> set (major @ minor). \<not> regex_special c"
    and target: "target = major @ ''.'' @ minor \<or> (\<exists>more. target = major @ ''.'' @ minor @ ''.'' @ more)"
  shows "match_version input target False =
           (if map snd (filter (\<lambda>kv. prefix (''v'' @ major @ ''.'' @ minor) (fst kv)) input) = []
            then Inr (False, None)
            else Inr (True, Some (map snd (filter (\<lambda>kv. prefix (''v'' @ major @ ''.'' @ minor) (fst kv)) input))))
       \<and> match_version input target True =
           (case map snd (filter (\<lambda>kv. prefix (''v'' @ major @ ''.'' @ minor) (fst kv)) input) of
              [] \<Rightarrow> Inr (False, None)
            | v # vs \<Rightarrow> Inr (True, Some [v]))
       \<and> (CHR ''.'' \<notin> set bad \<longrightarrow> match_version input bad stop = Inl ValueError)"
proof -
  have nd: "CHR ''.'' \<notin> set major" "CHR ''.'' \<notin> set minor"
    using plain special_dot by auto
  have t: "take 2 (split_dot target) = [major, minor]"
    using take2_split [OF nd target] .
  note rm = re_match_version_regex [OF plain]
  have a: "match_version input target False =
           (if map snd (filter (\<lambda>kv. prefix (''v'' @ major @ ''.'' @ minor) (fst kv)) input) = []
            then Inr (False, None)
            else Inr (True, Some (map snd (filter (\<lambda>kv. prefix (''v'' @ major @ ''.'' @ minor) (fst kv)) input))))"
    unfolding match_version_def t using match_loop_all [of "version_regex major minor" "prefix (''v'' @ major @ ''.'' @ minor)" input "[]", OF rm]
    by simp
  have b: "match_version input target True =
           (case map snd (filter (\<lambda>kv. prefix (''v'' @ major @ ''.'' @ minor) (fst kv)) input) of
              [] \<Rightarrow> Inr (False, None)
            | v # vs \<Rightarrow> Inr (True, Some [v]))"
    unfolding match_version_def t using match_loop_first [of "version_regex major minor" "prefix (''v'' @ major @ ''.'' @ minor)" input, OF rm]
    by simp
  have c: "CHR ''.'' \<notin> set bad \<longrightarrow> match_version input bad stop = Inl ValueError"
    by (simp add: match_version_def split_dot_no_dot)
  show ?thesis using a b c by blast
qed

theorem match_version_prefix_witness:
  "match_version [(''v1.5'', PStr ''x''), (''v1.4'', PStr ''y''), (''v1.5-extra'', PStr ''z'')] ''1.5.2'' False
     = Inr (True, Some [PStr ''x'', PStr ''z''])
   \<and> match_version [(''v1.5'', PStr ''x''), (''v1.4'', PStr ''y''), (''v1.5-extra'', PStr ''z'')] ''1.5.2'' True
     = Inr (True, Some [PStr ''x''])
   \<and> match_version [(''v1.4'', PStr ''y'')] ''1.5'' False = Inr (False, None)
   \<and> match_version [(''v1.4'', PStr ''y'')] ''15'' False = Inl ValueError"
proof -
  have plain: "\<forall>c \<in> set (''1'' @ ''5''). \<not> regex_special c"
    by (simp add: regex_special_def)
  have t1: "''1.5.2'' = ''1'' @ ''.'' @ ''5'' \<or> (\<exists>more. ''1.5.2'' = ''1'' @ ''.'' @ ''5'' @ ''.'' @ more)"
    by simp
  have t2: "''1.5'' = ''1'' @ ''.'' @ ''5'' \<or> (\<exists>more. ''1.5'' = ''1'' @ ''.'' @ ''5'' @ ''.'' @ more)"
    by simp
  have nodot: "CHR ''.'' \<notin> set ''15''" by simp
  show ?thesis
    using match_version_prefix [OF plain t1, of "[(''v1.5'', PStr ''x''), (''v1.4'', PStr ''y''), (''v1.5-extra'', PStr ''z'')]" "''15''" False]
      match_version_prefix [OF plain t2, of "[(''v1.4'', PStr ''y'')]" "''15''" False]
      nodot
    by simp
qed

section \<open>Properties of the record builder\<close>

lemma parse_package_id_eq:
  "fst (parse_package_id md (m, lg)) =
     m\<lparr>package_id := (case field_value md ''packageId'' of
                        PStr s \<Rightarrow> CaseInsensitiveStr s | _ \<Rightarrow> package_id m),
       valid := (valid m \<and> is_str (field_value md ''packageId''))\<rparr>"
  by (simp add: parse_package_id_def set_mod_invalid_def split: pyval.splits)

lemma ludeon_upgrade_frame:
  assumes "ludeon_upgrade T md (m, lg) = Inr (m2, lg2)"
  shows "valid m2 = valid m" "package_id m2 = package_id m" "authors m2 = authors m"
    "supported_versions m2 = supported_versions m"
    "cls m = LudeonModC \<Longrightarrow> cls m2 = LudeonModC"
  using assms
  by (auto simp: ludeon_upgrade_def LudeonMod_def Let_def split: option.splits if_splits)

lemma ludeon_upgrade_returns:
  assumes "dlc_table_ok T"
  shows "\<exists>st2. ludeon_upgrade T md st = Inr st2"
proof (cases st)
  case (Pair m lg)
  show ?thesis
  proof (cases "get_dlc_packageid_appid_map T (package_id m)")
    case None
    then show ?thesis using Pair
      by (auto simp: ludeon_upgrade_def Let_def split: option.splits)
  next
    case (Some appid)
    then have "(package_id m, appid) \<in> set (map (\<lambda>(appid, dlc). (dlc_packageid dlc, appid)) T)"
      unfolding get_dlc_packageid_appid_map_def by (auto dest: map_of_SomeD)
    then obtain dlc where "(appid, dlc) \<in> set T" by auto
    with assms obtain n where "py_int appid = Some n" "map_of T (py_str n) \<noteq> None"
      unfolding dlc_table_ok_def by (auto simp: list_all_iff split: option.splits)
    then show ?thesis using Pair Some
      by (auto simp: ludeon_upgrade_def)
  qed
qed

lemma parse_name_eq:
  "fst (parse_name md (m, lg)) =
     m\<lparr>name := (case field_value md ''name'' of
                  PStr s \<Rightarrow> s
                | _ \<Rightarrow> if cls m \<noteq> LudeonModC \<and> is_str (field_value md ''packageId'')
                       then package_id m else name m),
       valid := (valid m \<and> (is_str (field_value md ''name'') \<or> cls m = LudeonModC))\<rparr>"
  by (simp add: parse_name_def set_mod_invalid_def split: pyval.splits)

lemma parse_description_eq:
  "fst (parse_description md (m, lg)) =
     m\<lparr>description := (case field_value md ''description'' of
                         PStr s \<Rightarrow> s | _ \<Rightarrow> description m),
       valid := (valid m \<and> (is_str (field_value md ''description'') \<or> cls m = LudeonModC))\<rparr>"
  by (simp add: parse_description_def set_mod_invalid_def split: pyval.splits)

lemma parse_authors_eq:
  assumes "parse_authors md (m, lg) = Inr (m5, lg5)"
  shows "m5 = m\<lparr>authors := authors m
                    @ (case field_value md ''author'' of PStr s \<Rightarrow> [PStr s] | _ \<Rightarrow> [])
                    @ (if truthy (field_value md ''authors'')
                       then (case py_iter (field_value md ''authors'') of Inr xs \<Rightarrow> xs | Inl e \<Rightarrow> [])
                       else []),
               valid := (valid m \<and> (truthy (field_value md ''author'')
                                       \<or> truthy (field_value md ''authors'')
                                       \<or> cls m = LudeonModC))\<rparr>"
  using assms
  by (auto simp: parse_authors_def set_mod_invalid_def Let_def split: pyval.splits sum.splits if_splits)

lemma parse_authors_returns:
  assumes "authors_iterable md"
  shows "\<exists>st5. parse_authors md st = Inr st5"
  using assms
  by (cases st) (auto simp: parse_authors_def authors_iterable_def Let_def split: sum.splits)

lemma parse_supported_versions_eq:
  assumes "parse_supported_versions md (m, lg) = Inr (m6, lg6)"
  shows "m6 = m\<lparr>supported_versions :=
                   (case field_value md ''supportedVersions'' of
                      PList xs \<Rightarrow> set xs
                    | PStr s \<Rightarrow> {PStr s}
                    | _ \<Rightarrow> supported_versions m),
               valid := (valid m \<and> (is_list (field_value md ''supportedVersions'')
                                       \<or> is_str (field_value md ''supportedVersions'')
                                       \<or> cls m = LudeonModC))\<rparr>"
  using assms
  by (auto simp: parse_supported_versions_def set_mod_invalid_def split: pyval.splits if_splits)

lemma parse_supported_versions_returns:
  assumes "versions_hashable md"
  shows "\<exists>st6. parse_supported_versions md st = Inr st6"
  using assms
  by (cases st) (auto simp: parse_supported_versions_def versions_hashable_def split: pyval.splits)

lemma parse_required_returns:
  assumes "dlc_table_ok T" "authors_iterable md" "versions_hashable md"
  shows "\<exists>m' lg. parse_required T md m = Inr (m', lg)"
proof -
  obtain st2 where a: "ludeon_upgrade T md (parse_package_id md (m, [])) = Inr st2"
    using ludeon_upgrade_returns [OF assms(1)] by blast
  obtain st5 where b: "parse_authors md (parse_description md (parse_name md st2)) = Inr st5"
    using parse_authors_returns [OF assms(2)] by blast
  obtain st6 where c: "parse_supported_versions md st5 = Inr st6"
    using parse_supported_versions_returns [OF assms(3)] by blast
  show ?thesis using a b c by (cases st6) (simp add: parse_required_def)
qed

lemma parse_required_steps:
  assumes "parse_required T md m = Inr (m', lg)"
  obtains m1 lg1 m2 lg2 m3 lg3 m4 lg4 m5 lg5 where
    "parse_package_id md (m, []) = (m1, lg1)"
    "ludeon_upgrade T md (m1, lg1) = Inr (m2, lg2)"
    "parse_name md (m2, lg2) = (m3, lg3)"
    "parse_description md (m3, lg3) = (m4, lg4)"
    "parse_authors md (m4, lg4) = Inr (m5, lg5)"
    "parse_supported_versions md (m5, lg5) = Inr (m', lg)"
proof -
  obtain m1 lg1 where s1: "parse_package_id md (m, []) = (m1, lg1)" by (cases "parse_package_id md (m, [])")
  obtain m2 lg2 where s2: "ludeon_upgrade T md (m1, lg1) = Inr (m2, lg2)"
    using assms s1 by (cases "ludeon_upgrade T md (m1, lg1)") (auto simp: parse_required_def)
  obtain m3 lg3 where s3: "parse_name md (m2, lg2) = (m3, lg3)" by (cases "parse_name md (m2, lg2)")
  obtain m4 lg4 where s4: "parse_description md (m3, lg3) = (m4, lg4)" by (cases "parse_description md (m3, lg3)")
  obtain m5 lg5 where s5: "parse_authors md (m4, lg4) = Inr (m5, lg5)"
    using assms s1 s2 s3 s4 by (cases "parse_authors md (m4, lg4)") (auto simp: parse_required_def)
  have s6: "parse_supported_versions md (m5, lg5) = Inr (m', lg)"
    using assms s1 s2 s3 s4 s5 by (simp add: parse_required_def)
  show ?thesis using that s1 s2 s3 s4 s5 s6 by blast
qed


lemma parse_required_fields:
  assumes "parse_required T md m = Inr (m', lg)"
  obtains m2 lg1 lg2 where
    "ludeon_upgrade T md
       (m\<lparr>package_id := (case field_value md ''packageId'' of
                           PStr s \<Rightarrow> CaseInsensitiveStr s | _ \<Rightarrow> package_id m),
          valid := (valid m \<and> is_str (field_value md ''packageId''))\<rparr>, lg1) = Inr (m2, lg2)"
    "cls m' = cls m2"
    "package_id m' = package_id m2"
    "steam_app_id m' = steam_app_id m2"
    "name m' = (case field_value md ''name'' of
                  PStr s \<Rightarrow> s
                | _ \<Rightarrow> if cls m2 \<noteq> LudeonModC \<and> is_str (field_value md ''packageId'')
                       then package_id m2 else name m2)"
    "description m' = (case field_value md ''description'' of
                         PStr s \<Rightarrow> s | _ \<Rightarrow> description m2)"
    "authors m' = authors m2
                    @ (case field_value md ''author'' of PStr s \<Rightarrow> [PStr s] | _ \<Rightarrow> [])
                    @ (if truthy (field_value md ''authors'')
                       then (case py_iter (field_value md ''authors'') of Inr xs \<Rightarrow> xs | Inl e \<Rightarrow> [])
                       else [])"
    "supported_versions m' = (case field_value md ''supportedVersions'' of
                                PList xs \<Rightarrow> set xs
                              | PStr s \<Rightarrow> {PStr s}
                              | _ \<Rightarrow> supported_versions m2)"
    "valid m' = (valid m2
                 \<and> (is_str (field_value md ''name'') \<or> cls m2 = LudeonModC)
                 \<and> (is_str (field_value md ''description'') \<or> cls m2 = LudeonModC)
                 \<and> (truthy (field_value md ''author'') \<or> truthy (field_value md ''authors'')
                      \<or> cls m2 = LudeonModC)
                 \<and> (is_list (field_value md ''supportedVersions'')
                      \<or> is_str (field_value md ''supportedVersions'') \<or> cls m2 = LudeonModC))"
proof -
  from assms obtain m1 lg1 m2 lg2 m3 lg3 m4 lg4 m5 lg5 where
    s1: "parse_package_id md (m, []) = (m1, lg1)" and
    s2: "ludeon_upgrade T md (m1, lg1) = Inr (m2, lg2)" and
    s3: "parse_name md (m2, lg2) = (m3, lg3)" and
    s4: "parse_description md (m3, lg3) = (m4, lg4)" and
    s5: "parse_authors md (m4, lg4) = Inr (m5, lg5)" and
    s6: "parse_supported_versions md (m5, lg5) = Inr (m', lg)"
    by (rule parse_required_steps)
  have e1: "m1 = m\<lparr>package_id := (case field_value md ''packageId'' of
                           PStr s \<Rightarrow> CaseInsensitiveStr s | _ \<Rightarrow> package_id m),
          valid := (valid m \<and> is_str (field_value md ''packageId''))\<rparr>"
    using parse_package_id_eq [of md m "[]"] s1 by simp
  have e3: "m3 = m2\<lparr>name := (case field_value md ''name'' of
                  PStr s \<Rightarrow> s
                | _ \<Rightarrow> if cls m2 \<noteq> LudeonModC \<and> is_str (field_value md ''packageId'')
                       then package_id m2 else name m2),
       valid := (valid m2 \<and> (is_str (field_value md ''name'') \<or> cls m2 = LudeonModC))\<rparr>"
    using parse_name_eq [of md m2 lg2] s3 by simp
  have f3: "description m3 = description m2" "cls m3 = cls m2"
    by (simp_all add: e3)
  have e4: "m4 = m3\<lparr>description := (case field_value md ''description'' of
                         PStr s \<Rightarrow> s | _ \<Rightarrow> description m2),
       valid := (valid m3 \<and> (is_str (field_value md ''description'') \<or> cls m2 = LudeonModC))\<rparr>"
    using parse_description_eq [of md m3 lg3] s4 by (simp add: f3 cong: pyval.case_cong)
  note e5 = parse_authors_eq [OF s5]
  note e6 = parse_supported_versions_eq [OF s6]
  have a: "cls m' = cls m2" by (simp add: e6 e5 e4 e3 cong: pyval.case_cong)
  have b: "package_id m' = package_id m2" by (simp add: e6 e5 e4 e3 cong: pyval.case_cong)
  have c: "steam_app_id m' = steam_app_id m2" by (simp add: e6 e5 e4 e3 cong: pyval.case_cong)
  have d: "name m' = (case field_value md ''name'' of
                  PStr s \<Rightarrow> s
                | _ \<Rightarrow> if cls m2 \<noteq> LudeonModC \<and> is_str (field_value md ''packageId'')
                       then package_id m2 else name m2)"
    by (simp add: e6 e5 e4 e3 cong: pyval.case_cong)
  have e: "description m' = (case field_value md ''description'' of
                         PStr s \<Rightarrow> s | _ \<Rightarrow> description m2)"
    by (simp add: e6 e5 e4 e3 cong: pyval.case_cong)
  have f: "authors m' = authors m2
                    @ (case field_value md ''author'' of PStr s \<Rightarrow> [PStr s] | _ \<Rightarrow> [])
                    @ (if truthy (field_value md ''authors'')
                       then (case py_iter (field_value md ''authors'') of Inr xs \<Rightarrow> xs | Inl e \<Rightarrow> [])
                       else [])"
    by (simp add: e6 e5 e4 e3 cong: pyval.case_cong)
  have g: "supported_versions m' = (case field_value md ''supportedVersions'' of
                                PList xs \<Rightarrow> set xs
                              | PStr s \<Rightarrow> {PStr s}
                              | _ \<Rightarrow> supported_versions m2)"
    by (simp add: e6 e5 e4 e3 cong: pyval.case_cong)
  have h: "valid m' = (valid m2
                 \<and> (is_str (field_value md ''name'') \<or> cls m2 = LudeonModC)
                 \<and> (is_str (field_value md ''description'') \<or> cls m2 = LudeonModC)
                 \<and> (truthy (field_value md ''author'') \<or> truthy (field_value md ''authors'')
                      \<or> cls m2 = LudeonModC)
                 \<and> (is_list (field_value md ''supportedVersions'')
                      \<or> is_str (field_value md ''supportedVersions'') \<or> cls m2 = LudeonModC))"
    by (simp add: e6 e5 e4 e3 cong: pyval.case_cong)
  show ?thesis using that [OF s2 [unfolded e1] a b c d e f g h] .
qed

text \<open>
  Claim C5. The validity flag is monotone. A fresh record is valid. Each step of
  \<open>_parse_required\<close> leaves the flag as it is or sets it to false, so an invalid
  record never becomes valid again. The steps are independent: whatever the earlier
  steps did, the builder returns, each later field is filled from the descriptor when
  the descriptor has it, and the final flag is the conjunction of the checks of all
  steps, each check reading its own field only (and the class of the record).
\<close>

theorem validity_monotone:
  assumes "dlc_table_ok T" and "authors_iterable md" and "versions_hashable md"
  shows "valid RuledMod_new
    \<and> (\<exists>m' lg. parse_required T md m = Inr (m', lg)
          \<and> (valid m' \<longrightarrow> valid m)
          \<and> valid m' =
               (valid m \<and> is_str (field_value md ''packageId'')
                \<and> (cls m' = LudeonModC
                     \<or> (is_str (field_value md ''name'')
                         \<and> is_str (field_value md ''description'')
                         \<and> (truthy (field_value md ''author'') \<or> truthy (field_value md ''authors''))
                         \<and> (is_list (field_value md ''supportedVersions'')
                              \<or> is_str (field_value md ''supportedVersions'')))))
          \<and> (\<forall>s. field_value md ''packageId'' = PStr s \<longrightarrow> package_id m' = CaseInsensitiveStr s)
          \<and> (\<forall>s. field_value md ''name'' = PStr s \<longrightarrow> name m' = s)
          \<and> (\<forall>s. field_value md ''description'' = PStr s \<longrightarrow> description m' = s)
          \<and> authors m' = authors m
               @ (case field_value md ''author'' of PStr s \<Rightarrow> [PStr s] | _ \<Rightarrow> [])
               @ (if truthy (field_value md ''authors'')
                  then (case py_iter (field_value md ''authors'') of Inr xs \<Rightarrow> xs | Inl e \<Rightarrow> [])
                  else [])
          \<and> (\<forall>s. field_value md ''supportedVersions'' = PStr s \<longrightarrow> supported_versions m' = {PStr s})
          \<and> (\<forall>xs. field_value md ''supportedVersions'' = PList xs \<longrightarrow> supported_versions m' = set xs))
    \<and> (valid (fst (parse_package_id md (m, lg0))) \<longrightarrow> valid m)
    \<and> (\<forall>m2 lg2. ludeon_upgrade T md (m, lg0) = Inr (m2, lg2) \<longrightarrow> valid m2 = valid m)
    \<and> (valid (fst (parse_name md (m, lg0))) \<longrightarrow> valid m)
    \<and> (valid (fst (parse_description md (m, lg0))) \<longrightarrow> valid m)
    \<and> (\<forall>m2 lg2. parse_authors md (m, lg0) = Inr (m2, lg2) \<longrightarrow> valid m2 \<longrightarrow> valid m)
    \<and> (\<forall>m2 lg2. parse_supported_versions md (m, lg0) = Inr (m2, lg2) \<longrightarrow> valid m2 \<longrightarrow> valid m)"
proof -
  obtain m' lg where r: "parse_required T md m = Inr (m', lg)"
    using parse_required_returns [OF assms] by blast
  from r obtain m2 lg1 lg2 where
    u: "ludeon_upgrade T md
       (m\<lparr>package_id := (case field_value md ''packageId'' of
                           PStr s \<Rightarrow> CaseInsensitiveStr s | _ \<Rightarrow> package_id m),
          valid := (valid m \<and> is_str (field_value md ''packageId''))\<rparr>, lg1) = Inr (m2, lg2)"
    and c: "cls m' = cls m2"
    and p: "package_id m' = package_id m2"
    and n: "name m' = (case field_value md ''name'' of
                  PStr s \<Rightarrow> s
                | _ \<Rightarrow> if cls m2 \<noteq> LudeonModC \<and> is_str (field_value md ''packageId'')
                       then package_id m2 else name m2)"
    and d: "description m' = (case field_value md ''description'' of
                         PStr s \<Rightarrow> s | _ \<Rightarrow> description m2)"
    and a: "authors m' = authors m2
                    @ (case field_value md ''author'' of PStr s \<Rightarrow> [PStr s] | _ \<Rightarrow> [])
                    @ (if truthy (field_value md ''authors'')
                       then (case py_iter (field_value md ''authors'') of Inr xs \<Rightarrow> xs | Inl e \<Rightarrow> [])
                       else [])"
    and sv: "supported_versions m' = (case field_value md ''supportedVersions'' of
                                PList xs \<Rightarrow> set xs
                              | PStr s \<Rightarrow> {PStr s}
                              | _ \<Rightarrow> supported_versions m2)"
    and v: "valid m' = (valid m2
                 \<and> (is_str (field_value md ''name'') \<or> cls m2 = LudeonModC)
                 \<and> (is_str (field_value md ''description'') \<or> cls m2 = LudeonModC)
                 \<and> (truthy (field_value md ''author'') \<or> truthy (field_value md ''authors'')
                      \<or> cls m2 = LudeonModC)
                 \<and> (is_list (field_value md ''supportedVersions'')
                      \<or> is_str (field_value md ''supportedVersions'') \<or> cls m2 = LudeonModC))"
    by (rule parse_required_fields)
  note fr = ludeon_upgrade_frame(1-4) [OF u]
  have v2: "valid m2 = (valid m \<and> is_str (field_value md ''packageId''))"
    using fr(1) by simp
  have p2: "package_id m2 = (case field_value md ''packageId'' of
                           PStr s \<Rightarrow> CaseInsensitiveStr s | _ \<Rightarrow> package_id m)"
    using fr(2) by simp
  have a2: "authors m2 = authors m" using fr(3) by simp
  have g1: "valid m' \<longrightarrow> valid m" using v v2 by blast
  have g2: "valid m' =
               (valid m \<and> is_str (field_value md ''packageId'')
                \<and> (cls m' = LudeonModC
                     \<or> (is_str (field_value md ''name'')
                         \<and> is_str (field_value md ''description'')
                         \<and> (truthy (field_value md ''author'') \<or> truthy (field_value md ''authors''))
                         \<and> (is_list (field_value md ''supportedVersions'')
                              \<or> is_str (field_value md ''supportedVersions'')))))"
    unfolding v v2 c by blast
  have g3: "\<forall>s. field_value md ''packageId'' = PStr s \<longrightarrow> package_id m' = CaseInsensitiveStr s"
    by (simp add: p p2)
  have g4: "\<forall>s. field_value md ''name'' = PStr s \<longrightarrow> name m' = s"
    by (simp add: n)
  have g5: "\<forall>s. field_value md ''description'' = PStr s \<longrightarrow> description m' = s"
    by (simp add: d)
  have g6: "authors m' = authors m
               @ (case field_value md ''author'' of PStr s \<Rightarrow> [PStr s] | _ \<Rightarrow> [])
               @ (if truthy (field_value md ''authors'')
                  then (case py_iter (field_value md ''authors'') of Inr xs \<Rightarrow> xs | Inl e \<Rightarrow> [])
                  else [])"
    unfolding a a2 ..
  have g7: "\<forall>s. field_value md ''supportedVersions'' = PStr s \<longrightarrow> supported_versions m' = {PStr s}"
    by (simp add: sv)
  have g8: "\<forall>xs. field_value md ''supportedVersions'' = PList xs \<longrightarrow> supported_versions m' = set xs"
    by (simp add: sv)
  have h0: "valid RuledMod_new" by (simp add: RuledMod_new_def ListedMod_new_def)
  have h1: "valid (fst (parse_package_id md (m, lg0))) \<longrightarrow> valid m"
    by (simp add: parse_package_id_eq)
  have h2: "\<forall>m2 lg2. ludeon_upgrade T md (m, lg0) = Inr (m2, lg2) \<longrightarrow> valid m2 = valid m"
    using ludeon_upgrade_frame(1) by blast
  have h3: "valid (fst (parse_name md (m, lg0))) \<longrightarrow> valid m"
    by (simp add: parse_name_eq)
  have h4: "valid (fst (parse_description md (m, lg0))) \<longrightarrow> valid m"
    by (simp add: parse_description_eq)
  have h5: "\<forall>m2 lg2. parse_authors md (m, lg0) = Inr (m2, lg2) \<longrightarrow> valid m2 \<longrightarrow> valid m"
    using parse_authors_eq by fastforce
  have h6: "\<forall>m2 lg2. parse_supported_versions md (m, lg0) = Inr (m2, lg2) \<longrightarrow> valid m2 \<longrightarrow> valid m"
    using parse_supported_versions_eq by fastforce
  have ex: "\<exists>m' lg. parse_required T md m = Inr (m', lg)
          \<and> (valid m' \<longrightarrow> valid m)
          \<and> valid m' =
               (valid m \<and> is_str (field_value md ''packageId'')
                \<and> (cls m' = LudeonModC
                     \<or> (is_str (field_value md ''name'')
                         \<and> is_str (field_value md ''description'')
                         \<and> (truthy (field_value md ''author'') \<or> truthy (field_value md ''authors''))
                         \<and> (is_list (field_value md ''supportedVersions'')
                              \<or> is_str (field_value md ''supportedVersions'')))))
          \<and> (\<forall>s. field_value md ''packageId'' = PStr s \<longrightarrow> package_id m' = CaseInsensitiveStr s)
          \<and> (\<forall>s. field_value md ''name'' = PStr s \<longrightarrow> name m' = s)
          \<and> (\<forall>s. field_value md ''description'' = PStr s \<longrightarrow> description m' = s)
          \<and> authors m' = authors m
               @ (case field_value md ''author'' of PStr s \<Rightarrow> [PStr s] | _ \<Rightarrow> [])
               @ (if truthy (field_value md ''authors'')
                  then (case py_iter (field_value md ''authors'') of Inr xs \<Rightarrow> xs | Inl e \<Rightarrow> [])
                  else [])
          \<and> (\<forall>s. field_value md ''supportedVersions'' = PStr s \<longrightarrow> supported_versions m' = {PStr s})
          \<and> (\<forall>xs. field_value md ''supportedVersions'' = PList xs \<longrightarrow> supported_versions m' = set xs)"
    using r g1 g2 g3 g4 g5 g6 g7 g8 by blast
  show ?thesis using h0 ex h1 h2 h3 h4 h5 h6 by blast
qed


theorem validity_monotone_witness:
  "dlc_table_ok [(''294100'', \<lparr>dlc_packageid = ''ludeon.rimworld'', dlc_name = ''RimWorld'',
                                dlc_description = ''Base game''\<rparr>)]
   \<and> authors_iterable [(''description'', PStr ''d''), (''authors'', PList [PStr ''a'', PStr ''b''])]
   \<and> versions_hashable [(''description'', PStr ''d''), (''authors'', PList [PStr ''a'', PStr ''b''])]
   \<and> (\<exists>m' lg. parse_required
                  [(''294100'', \<lparr>dlc_packageid = ''ludeon.rimworld'', dlc_name = ''RimWorld'',
                                  dlc_description = ''Base game''\<rparr>)]
                  [(''description'', PStr ''d''), (''authors'', PList [PStr ''a'', PStr ''b''])]
                  RuledMod_new = Inr (m', lg)
         \<and> \<not> valid m' \<and> description m' = ''d'' \<and> authors m' = [PStr ''a'', PStr ''b''])"
proof -
  have t: "dlc_table_ok [(''294100'', \<lparr>dlc_packageid = ''ludeon.rimworld'', dlc_name = ''RimWorld'',
                                dlc_description = ''Base game''\<rparr>)]"
    by (simp add: dlc_table_ok_def py_int_def py_strip_def py_space_def digit_val_def py_str_def
        nat_digits.simps)
  have a: "authors_iterable [(''description'', PStr ''d''), (''authors'', PList [PStr ''a'', PStr ''b''])]"
    by (simp add: authors_iterable_def field_value_def dict_get_def)
  have h: "versions_hashable [(''description'', PStr ''d''), (''authors'', PList [PStr ''a'', PStr ''b''])]"
    by (simp add: versions_hashable_def field_value_def dict_get_def)
  have au: "authors RuledMod_new = []"
    by (simp add: RuledMod_new_def ListedMod_new_def)
  show ?thesis
    using t a h validity_monotone [OF t a h, of RuledMod_new "[]"] au
    by (simp add: field_value_def dict_get_def) blast
qed

lemma field_value_missing: "map_of md key = None \<Longrightarrow> field_value md key = PNone"
  by (simp add: field_value_def dict_get_def)

lemma parse_required_after_upgrade:
  assumes "ludeon_upgrade T md (parse_package_id md (m, [])) = Inr st2"
    and "authors_iterable md" and "versions_hashable md"
  shows "\<exists>m' lg. parse_required T md m = Inr (m', lg)"
proof -
  obtain st5 where b: "parse_authors md (parse_description md (parse_name md st2)) = Inr st5"
    using parse_authors_returns [OF assms(2)] by blast
  obtain st6 where c: "parse_supported_versions md st5 = Inr st6"
    using parse_supported_versions_returns [OF assms(3)] by blast
  show ?thesis using assms(1) b c by (cases st6) (simp add: parse_required_def)
qed

text \<open>
  Claim C10. When the field \<open>authors\<close> of the descriptor resolves to a string that
  is not empty, the authors step appends every character of that string as an author
  of its own (after the singular \<open>author\<close>, when that is a string), and leaves the
  validity flag and the log as they are. The same holds for the whole of
  \<open>_parse_required\<close>, whose final flag then does not depend on the authors.
\<close>

theorem authors_string_split:
  assumes "field_value md ''authors'' = PStr s" and "s \<noteq> []"
  shows "parse_authors md (m, lg) =
           Inr (m\<lparr>authors := authors m
                    @ (case field_value md ''author'' of PStr a \<Rightarrow> [PStr a] | _ \<Rightarrow> [])
                    @ map (\<lambda>c. PStr [c]) s\<rparr>, lg)
    \<and> (dlc_table_ok T \<and> versions_hashable md \<longrightarrow>
         (\<exists>m' lg'. parse_required T md m = Inr (m', lg')
            \<and> authors m' = authors m
                 @ (case field_value md ''author'' of PStr a \<Rightarrow> [PStr a] | _ \<Rightarrow> [])
                 @ map (\<lambda>c. PStr [c]) s
            \<and> valid m' =
                 (valid m \<and> is_str (field_value md ''packageId'')
                  \<and> (cls m' = LudeonModC
                       \<or> (is_str (field_value md ''name'')
                           \<and> is_str (field_value md ''description'')
                           \<and> (is_list (field_value md ''supportedVersions'')
                                \<or> is_str (field_value md ''supportedVersions'')))))))"
proof -
  have step: "parse_authors md (m, lg) =
           Inr (m\<lparr>authors := authors m
                    @ (case field_value md ''author'' of PStr a \<Rightarrow> [PStr a] | _ \<Rightarrow> [])
                    @ map (\<lambda>c. PStr [c]) s\<rparr>, lg)"
    using assms by (simp add: parse_authors_def Let_def split: pyval.splits)
  have it: "authors_iterable md"
    using assms by (simp add: authors_iterable_def)
  have tr: "truthy (field_value md ''authors'')"
    using assms by simp
  have whole: "\<exists>m' lg'. parse_required T md m = Inr (m', lg')
            \<and> authors m' = authors m
                 @ (case field_value md ''author'' of PStr a \<Rightarrow> [PStr a] | _ \<Rightarrow> [])
                 @ map (\<lambda>c. PStr [c]) s
            \<and> valid m' =
                 (valid m \<and> is_str (field_value md ''packageId'')
                  \<and> (cls m' = LudeonModC
                       \<or> (is_str (field_value md ''name'')
                           \<and> is_str (field_value md ''description'')
                           \<and> (is_list (field_value md ''supportedVersions'')
                                \<or> is_str (field_value md ''supportedVersions'')))))"
    if ok: "dlc_table_ok T" "versions_hashable md"
  proof -
    obtain m' lg' where r: "parse_required T md m = Inr (m', lg')"
      using parse_required_returns [OF ok(1) it ok(2)] by blast
    from r obtain m2 lg1 lg2 where
      u: "ludeon_upgrade T md
         (m\<lparr>package_id := (case field_value md ''packageId'' of
                             PStr s \<Rightarrow> CaseInsensitiveStr s | _ \<Rightarrow> package_id m),
            valid := (valid m \<and> is_str (field_value md ''packageId''))\<rparr>, lg1) = Inr (m2, lg2)"
      and c: "cls m' = cls m2"
      and a: "authors m' = authors m2
                    @ (case field_value md ''author'' of PStr s \<Rightarrow> [PStr s] | _ \<Rightarrow> [])
                    @ (if truthy (field_value md ''authors'')
                       then (case py_iter (field_value md ''authors'') of Inr xs \<Rightarrow> xs | Inl e \<Rightarrow> [])
                       else [])"
      and v: "valid m' = (valid m2
                 \<and> (is_str (field_value md ''name'') \<or> cls m2 = LudeonModC)
                 \<and> (is_str (field_value md ''description'') \<or> cls m2 = LudeonModC)
                 \<and> (truthy (field_value md ''author'') \<or> truthy (field_value md ''authors'')
                      \<or> cls m2 = LudeonModC)
                 \<and> (is_list (field_value md ''supportedVersions'')
                      \<or> is_str (field_value md ''supportedVersions'') \<or> cls m2 = LudeonModC))"
      by (rule parse_required_fields)
    note fr = ludeon_upgrade_frame(1-4) [OF u]
    have v2: "valid m2 = (valid m \<and> is_str (field_value md ''packageId''))"
      using fr(1) by simp
    have a2: "authors m2 = authors m" using fr(3) by simp
    have g1: "authors m' = authors m
                 @ (case field_value md ''author'' of PStr a \<Rightarrow> [PStr a] | _ \<Rightarrow> [])
                 @ map (\<lambda>c. PStr [c]) s"
      unfolding a a2 using assms by simp
    have g2: "valid m' =
                 (valid m \<and> is_str (field_value md ''packageId'')
                  \<and> (cls m' = LudeonModC
                       \<or> (is_str (field_value md ''name'')
                           \<and> is_str (field_value md ''description'')
                           \<and> (is_list (field_value md ''supportedVersions'')
                                \<or> is_str (field_value md ''supportedVersions'')))))"
      unfolding v v2 c using tr by blast
    show ?thesis using r g1 g2 by blast
  qed
  show ?thesis using step whole by blast
qed

theorem authors_string_split_witness:
  "field_value [(''packageId'', PStr ''a.b''), (''authors'', PDict [(''li'', PStr ''Bob'')])] ''authors''
     = PStr ''Bob''
   \<and> ''Bob'' \<noteq> []
   \<and> parse_authors [(''packageId'', PStr ''a.b''), (''authors'', PDict [(''li'', PStr ''Bob'')])]
        (RuledMod_new, [])
      = Inr (RuledMod_new\<lparr>authors := [PStr ''B'', PStr ''o'', PStr ''b'']\<rparr>, [])
   \<and> dlc_table_ok []
   \<and> versions_hashable [(''packageId'', PStr ''a.b''), (''authors'', PDict [(''li'', PStr ''Bob'')])]
   \<and> (\<exists>m' lg'. parse_required []
                   [(''packageId'', PStr ''a.b''), (''authors'', PDict [(''li'', PStr ''Bob'')])]
                   RuledMod_new = Inr (m', lg')
          \<and> authors m' = [PStr ''B'', PStr ''o'', PStr ''b''])"
proof -
  have t: "dlc_table_ok []" by (simp add: dlc_table_ok_def)
  have h: "versions_hashable [(''packageId'', PStr ''a.b''), (''authors'', PDict [(''li'', PStr ''Bob'')])]"
    by (simp add: versions_hashable_def field_value_def dict_get_def)
  have f: "field_value [(''packageId'', PStr ''a.b''), (''authors'', PDict [(''li'', PStr ''Bob'')])] ''authors''
     = PStr ''Bob''"
    by (simp add: field_value_def dict_get_def)
  have n: "''Bob'' \<noteq> []" by simp
  have au: "authors RuledMod_new = []"
    by (simp add: RuledMod_new_def ListedMod_new_def)
  have g: "field_value [(''packageId'', PStr ''a.b''), (''authors'', PDict [(''li'', PStr ''Bob'')])] ''author''
     = PNone"
    by (simp add: field_value_def dict_get_def)
  show ?thesis
    using f n t h authors_string_split [OF f n, of RuledMod_new "[]" "[]"] au g
    by simp blast
qed

text \<open>
  A descriptor of official content that brings a name and a description of its own:
  lines 181-183 and 193-195 run after the upgrade and replace the texts of the table.
\<close>

theorem official_content_descriptor_name_counterexample:
  "parse_required
     [(''294100'', \<lparr>dlc_packageid = ''ludeon.rimworld'', dlc_name = ''RimWorld'',
                     dlc_description = ''Base game''\<rparr>)]
     [(''packageId'', PStr ''ludeon.rimworld''), (''name'', PStr ''Mine''),
      (''description'', PStr ''Own text'')]
     RuledMod_new
   = Inr (\<lparr>cls = LudeonModC, package_id = ''ludeon.rimworld'', name = ''Mine'',
           description = ''Own text'', authors = [], supported_versions = {}, valid = True,
           mod_path = None, steam_app_id = Some 294100, mod_version = None,
           mod_icon_path = None, url = None, about_rules = None\<rparr>,
          [KnownLudeonPackage ''ludeon.rimworld''])
   \<and> ''Mine'' \<noteq> ''RimWorld'' \<and> ''Own text'' \<noteq> ''Base game''"
  by (simp add: parse_required_def parse_package_id_def ludeon_upgrade_def parse_name_def
      parse_description_def parse_authors_def parse_supported_versions_def
      get_dlc_packageid_appid_map_def LudeonMod_def RuledMod_new_def ListedMod_new_def
      field_value_def dict_get_def CaseInsensitiveStr_def lower_char_def
      py_int_def py_strip_def py_space_def digit_val_def py_str_def nat_digits.simps)

text \<open>
  Claim C3, as amended. When the case-folded identifier of the descriptor is a key
  of the official-content table, the record becomes the OfficialContent variant and
  carries the content id of the table. Its name and its description are those of the
  descriptor where the descriptor gives a string, and those of the table otherwise.
  The name, description, authors and supported-versions steps never invalidate it:
  the flag stays as it was, whichever of these fields are missing.
\<close>

theorem official_content_upgrade:
  assumes pid: "field_value md ''packageId'' = PStr s"
    and app: "get_dlc_packageid_appid_map T (CaseInsensitiveStr s) = Some appid"
    and num: "py_int appid = Some n"
    and ent: "map_of T (py_str n) = Some dlc"
    and it: "authors_iterable md"
    and hs: "versions_hashable md"
  shows "\<exists>m' lg. parse_required T md m = Inr (m', lg)
          \<and> cls m' = LudeonModC
          \<and> steam_app_id m' = Some n
          \<and> name m' = (case field_value md ''name'' of PStr x \<Rightarrow> x | _ \<Rightarrow> dlc_name dlc)
          \<and> description m' =
              (case field_value md ''description'' of PStr x \<Rightarrow> x | _ \<Rightarrow> dlc_description dlc)
          \<and> valid m' = valid m"
proof -
  have up: "ludeon_upgrade T md (m\<lparr>package_id := CaseInsensitiveStr s\<rparr>, l) =
        Inr ((LudeonMod (m\<lparr>package_id := CaseInsensitiveStr s\<rparr>) n)
               \<lparr>name := dlc_name dlc, description := dlc_description dlc\<rparr>,
             l @ [KnownLudeonPackage (CaseInsensitiveStr s)])" for l
    using app num ent by (simp add: ludeon_upgrade_def)
  have s1: "parse_package_id md (m, []) = (m\<lparr>package_id := CaseInsensitiveStr s\<rparr>, [])"
    using pid by (simp add: parse_package_id_def)
  obtain m' lg where r: "parse_required T md m = Inr (m', lg)"
    using parse_required_after_upgrade [OF _ it hs, of T m] up [of "[]"] s1 by auto
  from r obtain m2 lg1 lg2 where
    u: "ludeon_upgrade T md
       (m\<lparr>package_id := (case field_value md ''packageId'' of
                           PStr s \<Rightarrow> CaseInsensitiveStr s | _ \<Rightarrow> package_id m),
          valid := (valid m \<and> is_str (field_value md ''packageId''))\<rparr>, lg1) = Inr (m2, lg2)"
    and c: "cls m' = cls m2"
    and sa: "steam_app_id m' = steam_app_id m2"
    and nm: "name m' = (case field_value md ''name'' of
                  PStr s \<Rightarrow> s
                | _ \<Rightarrow> if cls m2 \<noteq> LudeonModC \<and> is_str (field_value md ''packageId'')
                       then package_id m2 else name m2)"
    and d: "description m' = (case field_value md ''description'' of
                         PStr s \<Rightarrow> s | _ \<Rightarrow> description m2)"
    and v: "valid m' = (valid m2
                 \<and> (is_str (field_value md ''name'') \<or> cls m2 = LudeonModC)
                 \<and> (is_str (field_value md ''description'') \<or> cls m2 = LudeonModC)
                 \<and> (truthy (field_value md ''author'') \<or> truthy (field_value md ''authors'')
                      \<or> cls m2 = LudeonModC)
                 \<and> (is_list (field_value md ''supportedVersions'')
                      \<or> is_str (field_value md ''supportedVersions'') \<or> cls m2 = LudeonModC))"
    by (rule parse_required_fields)
  have m2: "m2 = (LudeonMod (m\<lparr>package_id := CaseInsensitiveStr s\<rparr>) n)
               \<lparr>name := dlc_name dlc, description := dlc_description dlc\<rparr>"
    using u up [of lg1] pid by simp
  have c2: "cls m2 = LudeonModC" and a2: "steam_app_id m2 = Some n"
    and n2: "name m2 = dlc_name dlc" and d2: "description m2 = dlc_description dlc"
    and v2: "valid m2 = valid m"
    by (simp_all add: m2 LudeonMod_def)
  have g1: "name m' = (case field_value md ''name'' of PStr x \<Rightarrow> x | _ \<Rightarrow> dlc_name dlc)"
    unfolding nm by (simp add: c2 n2 cong: pyval.case_cong)
  have g2: "description m' =
              (case field_value md ''description'' of PStr x \<Rightarrow> x | _ \<Rightarrow> dlc_description dlc)"
    unfolding d by (simp add: d2 cong: pyval.case_cong)
  have g3: "valid m' = valid m" unfolding v by (simp add: c2 v2)
  show ?thesis using r c c2 sa a2 g1 g2 g3 by auto
qed

theorem official_content_upgrade_witness:
  "field_value [(''packageId'', PStr ''Ludeon.RimWorld'')] ''packageId'' = PStr ''Ludeon.RimWorld''
   \<and> get_dlc_packageid_appid_map
        [(''294100'', \<lparr>dlc_packageid = ''ludeon.rimworld'', dlc_name = ''RimWorld'',
                        dlc_description = ''Base game''\<rparr>)]
        (CaseInsensitiveStr ''Ludeon.RimWorld'') = Some ''294100''
   \<and> py_int ''294100'' = Some 294100
   \<and> map_of [(''294100'', \<lparr>dlc_packageid = ''ludeon.rimworld'', dlc_name = ''RimWorld'',
                              dlc_description = ''Base game''\<rparr>)] (py_str 294100)
       = Some \<lparr>dlc_packageid = ''ludeon.rimworld'', dlc_name = ''RimWorld'',
                dlc_description = ''Base game''\<rparr>
   \<and> authors_iterable [(''packageId'', PStr ''Ludeon.RimWorld'')]
   \<and> versions_hashable [(''packageId'', PStr ''Ludeon.RimWorld'')]
   \<and> (\<exists>m' lg. parse_required
                  [(''294100'', \<lparr>dlc_packageid = ''ludeon.rimworld'', dlc_name = ''RimWorld'',
                                  dlc_description = ''Base game''\<rparr>)]
                  [(''packageId'', PStr ''Ludeon.RimWorld'')] RuledMod_new = Inr (m', lg)
         \<and> cls m' = LudeonModC \<and> steam_app_id m' = Some 294100
         \<and> name m' = ''RimWorld'' \<and> description m' = ''Base game'' \<and> valid m')"
proof -
  have pid: "field_value [(''packageId'', PStr ''Ludeon.RimWorld'')] ''packageId'' = PStr ''Ludeon.RimWorld''"
    by (simp add: field_value_def dict_get_def)
  have app: "get_dlc_packageid_appid_map
        [(''294100'', \<lparr>dlc_packageid = ''ludeon.rimworld'', dlc_name = ''RimWorld'',
                        dlc_description = ''Base game''\<rparr>)]
        (CaseInsensitiveStr ''Ludeon.RimWorld'') = Some ''294100''"
    by (simp add: get_dlc_packageid_appid_map_def CaseInsensitiveStr_def lower_char_def)
  have num: "py_int ''294100'' = Some 294100"
    by (simp add: py_int_def py_strip_def py_space_def digit_val_def)
  have ent: "map_of [(''294100'', \<lparr>dlc_packageid = ''ludeon.rimworld'', dlc_name = ''RimWorld'',
                              dlc_description = ''Base game''\<rparr>)] (py_str 294100)
       = Some \<lparr>dlc_packageid = ''ludeon.rimworld'', dlc_name = ''RimWorld'',
                dlc_description = ''Base game''\<rparr>"
    by (simp add: py_str_def nat_digits.simps)
  have it: "authors_iterable [(''packageId'', PStr ''Ludeon.RimWorld'')]"
    by (simp add: authors_iterable_def field_value_def dict_get_def)
  have hs: "versions_hashable [(''packageId'', PStr ''Ludeon.RimWorld'')]"
    by (simp add: versions_hashable_def field_value_def dict_get_def)
  have nm: "field_value [(''packageId'', PStr ''Ludeon.RimWorld'')] ''name'' = PNone"
       "field_value [(''packageId'', PStr ''Ludeon.RimWorld'')] ''description'' = PNone"
    by (simp_all add: field_value_def dict_get_def)
  have v: "valid RuledMod_new" by (simp add: RuledMod_new_def ListedMod_new_def)
  show ?thesis
    using pid app num ent it hs official_content_upgrade [OF pid app num ent it hs, of RuledMod_new] nm v
    by simp
qed

text \<open>
  A descriptor with the identifier \<open>Foo.Bar\<close> and no name: the name of the record
  is the attribute \<open>mod.package_id\<close>, a \<open>CaseInsensitiveStr\<close>, whose text is
  \<open>foo.bar\<close>.
\<close>

theorem missing_name_case_folded_counterexample:
  "parse_required [] [(''packageId'', PStr ''Foo.Bar'')] RuledMod_new
   = Inr (\<lparr>cls = RuledModC, package_id = ''foo.bar'', name = ''foo.bar'',
           description = [], authors = [], supported_versions = {}, valid = False,
           mod_path = None, steam_app_id = None, mod_version = None,
           mod_icon_path = None, url = None, about_rules = None\<rparr>,
          [NameNotParsed (Some ''Foo.Bar''), DescriptionNotParsed, AuthorsNotParsed,
           SupportedVersionsNotParsed])
   \<and> ''foo.bar'' \<noteq> ''Foo.Bar''"
  by (simp add: parse_required_def parse_package_id_def ludeon_upgrade_def parse_name_def
      parse_description_def parse_authors_def parse_supported_versions_def
      get_dlc_packageid_appid_map_def set_mod_invalid_def RuledMod_new_def ListedMod_new_def
      field_value_def dict_get_def CaseInsensitiveStr_def lower_char_def)

text \<open>
  Claim C4, as amended. For a descriptor without the field \<open>name\<close> whose identifier
  is the string \<open>Foo.Bar\<close> (not an entry of the official-content table), the record
  gets the case-folded identifier \<open>foo.bar\<close> as its name, and it is invalid.
\<close>

theorem missing_name_defaults_to_identifier:
  assumes pid: "field_value md ''packageId'' = PStr ''Foo.Bar''"
    and nm: "map_of md ''name'' = None"
    and tb: "get_dlc_packageid_appid_map T ''foo.bar'' = None"
    and cl: "cls m \<noteq> LudeonModC"
    and it: "authors_iterable md"
    and hs: "versions_hashable md"
  shows "\<exists>m' lg. parse_required T md m = Inr (m', lg)
          \<and> package_id m' = ''foo.bar'' \<and> name m' = ''foo.bar'' \<and> \<not> valid m'"
proof -
  have ci: "CaseInsensitiveStr ''Foo.Bar'' = ''foo.bar''"
    by (simp add: CaseInsensitiveStr_def lower_char_def)
  have up: "ludeon_upgrade T md (m\<lparr>package_id := ''foo.bar''\<rparr>, l) =
              Inr (m\<lparr>package_id := ''foo.bar''\<rparr>, l)" for l
    using tb by (simp add: ludeon_upgrade_def)
  have s1: "parse_package_id md (m, []) = (m\<lparr>package_id := ''foo.bar''\<rparr>, [])"
    using pid by (simp add: parse_package_id_def ci)
  obtain m' lg where r: "parse_required T md m = Inr (m', lg)"
    using parse_required_after_upgrade [OF _ it hs, of T m] up [of "[]"] s1 by auto
  from r obtain m2 lg1 lg2 where
    u: "ludeon_upgrade T md
       (m\<lparr>package_id := (case field_value md ''packageId'' of
                           PStr s \<Rightarrow> CaseInsensitiveStr s | _ \<Rightarrow> package_id m),
          valid := (valid m \<and> is_str (field_value md ''packageId''))\<rparr>, lg1) = Inr (m2, lg2)"
    and p: "package_id m' = package_id m2"
    and n: "name m' = (case field_value md ''name'' of
                  PStr s \<Rightarrow> s
                | _ \<Rightarrow> if cls m2 \<noteq> LudeonModC \<and> is_str (field_value md ''packageId'')
                       then package_id m2 else name m2)"
    and v: "valid m' = (valid m2
                 \<and> (is_str (field_value md ''name'') \<or> cls m2 = LudeonModC)
                 \<and> (is_str (field_value md ''description'') \<or> cls m2 = LudeonModC)
                 \<and> (truthy (field_value md ''author'') \<or> truthy (field_value md ''authors'')
                      \<or> cls m2 = LudeonModC)
                 \<and> (is_list (field_value md ''supportedVersions'')
                      \<or> is_str (field_value md ''supportedVersions'') \<or> cls m2 = LudeonModC))"
    by (rule parse_required_fields)
  have m2: "m2 = m\<lparr>package_id := ''foo.bar''\<rparr>"
    using u up [of lg1] pid by (simp add: ci)
  have fn: "field_value md ''name'' = PNone"
    using nm by (rule field_value_missing)
  have g1: "package_id m' = ''foo.bar''" by (simp add: p m2)
  have g2: "name m' = ''foo.bar''" unfolding n by (simp add: fn m2 cl pid)
  have g3: "\<not> valid m'" unfolding v by (simp add: fn m2 cl)
  show ?thesis using r g1 g2 g3 by blast
qed

theorem missing_name_defaults_to_identifier_witness:
  "field_value [(''packageId'', PStr ''Foo.Bar''), (''description'', PStr ''d'')] ''packageId''
     = PStr ''Foo.Bar''
   \<and> map_of [(''packageId'', PStr ''Foo.Bar''), (''description'', PStr ''d'')] ''name'' = None
   \<and> get_dlc_packageid_appid_map
        [(''294100'', \<lparr>dlc_packageid = ''ludeon.rimworld'', dlc_name = ''RimWorld'',
                        dlc_description = ''Base game''\<rparr>)] ''foo.bar'' = None
   \<and> cls RuledMod_new \<noteq> LudeonModC
   \<and> authors_iterable [(''packageId'', PStr ''Foo.Bar''), (''description'', PStr ''d'')]
   \<and> versions_hashable [(''packageId'', PStr ''Foo.Bar''), (''description'', PStr ''d'')]
   \<and> (\<exists>m' lg. parse_required
                  [(''294100'', \<lparr>dlc_packageid = ''ludeon.rimworld'', dlc_name = ''RimWorld'',
                                  dlc_description = ''Base game''\<rparr>)]
                  [(''packageId'', PStr ''Foo.Bar''), (''description'', PStr ''d'')]
                  RuledMod_new = Inr (m', lg)
         \<and> package_id m' = ''foo.bar'' \<and> name m' = ''foo.bar'' \<and> \<not> valid m')"
proof -
  have pid: "field_value [(''packageId'', PStr ''Foo.Bar''), (''description'', PStr ''d'')] ''packageId''
     = PStr ''Foo.Bar''"
    by (simp add: field_value_def dict_get_def)
  have nm: "map_of [(''packageId'', PStr ''Foo.Bar''), (''description'', PStr ''d'')] ''name'' = None"
    by simp
  have tb: "get_dlc_packageid_appid_map
        [(''294100'', \<lparr>dlc_packageid = ''ludeon.rimworld'', dlc_name = ''RimWorld'',
                        dlc_description = ''Base game''\<rparr>)] ''foo.bar'' = None"
    by (simp add: get_dlc_packageid_appid_map_def)
  have cl: "cls RuledMod_new \<noteq> LudeonModC"
    by (simp add: RuledMod_new_def ListedMod_new_def)
  have it: "authors_iterable [(''packageId'', PStr ''Foo.Bar''), (''description'', PStr ''d'')]"
    by (simp add: authors_iterable_def field_value_def dict_get_def)
  have hs: "versions_hashable [(''packageId'', PStr ''Foo.Bar''), (''description'', PStr ''d'')]"
    by (simp add: versions_hashable_def field_value_def dict_get_def)
  show ?thesis
    using pid nm tb cl it hs missing_name_defaults_to_identifier [OF pid nm tb cl it hs]
    by simp
qed

text \<open>
  A descriptor of official content with no name, description, author or supported
  versions: the checks of lines 182, 194 and 217 fail on the missing keys, and the
  invalid branches behind \<open>elif not isinstance(mod, LudeonMod)\<close> are not taken. The
  record stays valid and nothing is logged but the detection of the package.
\<close>

theorem official_content_missing_fields_counterexample:
  "map_of [(''packageId'', PStr ''ludeon.rimworld'')] ''name'' = None
   \<and> parse_name [(''packageId'', PStr ''ludeon.rimworld'')]
        (LudeonMod RuledMod_new 294100, []) = (LudeonMod RuledMod_new 294100, [])
   \<and> valid (LudeonMod RuledMod_new 294100)
   \<and> parse_required
        [(''294100'', \<lparr>dlc_packageid = ''ludeon.rimworld'', dlc_name = ''RimWorld'',
                        dlc_description = ''Base game''\<rparr>)]
        [(''packageId'', PStr ''ludeon.rimworld'')]
        RuledMod_new
      = Inr (\<lparr>cls = LudeonModC, package_id = ''ludeon.rimworld'', name = ''RimWorld'',
              description = ''Base game'', authors = [], supported_versions = {}, valid = True,
              mod_path = None, steam_app_id = Some 294100, mod_version = None,
              mod_icon_path = None, url = None, about_rules = None\<rparr>,
             [KnownLudeonPackage ''ludeon.rimworld''])"
  by (simp add: parse_required_def parse_package_id_def ludeon_upgrade_def parse_name_def
      parse_description_def parse_authors_def parse_supported_versions_def
      get_dlc_packageid_appid_map_def LudeonMod_def RuledMod_new_def ListedMod_new_def
      field_value_def dict_get_def CaseInsensitiveStr_def lower_char_def
      py_int_def py_strip_def py_space_def digit_val_def py_str_def nat_digits.simps)

text \<open>
  Claim C9, as amended. \<open>value_extractor\<close> is a total function (its recursion
  terminates), and on every value that is not a string, a sequence or a mapping, the
  sentinel \<open>False\<close> among them, it returns \<open>None\<close>. So the value read for a missing
  key is \<open>None\<close>, which is no string and no list. The identifier step then takes its
  invalid branch. The name, description, authors and supported-versions steps take
  theirs when the record is not the OfficialContent variant, and do nothing when it is.
\<close>

theorem value_extractor_sentinel:
  "(\<not> is_str v \<and> \<not> is_list v \<and> \<not> is_dict v \<longrightarrow> value_extractor v = PNone)
   \<and> value_extractor (PBool False) = PNone
   \<and> (map_of md key = None \<longrightarrow>
        field_value md key = PNone
        \<and> \<not> is_str (field_value md key) \<and> \<not> is_list (field_value md key))
   \<and> (map_of md ''packageId'' = None \<longrightarrow>
        parse_package_id md (m, lg) = (m\<lparr>valid := False\<rparr>, lg @ [PackageIdNotString PNone]))
   \<and> (map_of md ''name'' = None \<longrightarrow>
        (cls m \<noteq> LudeonModC \<longrightarrow> \<not> valid (fst (parse_name md (m, lg))))
        \<and> (cls m = LudeonModC \<longrightarrow> parse_name md (m, lg) = (m, lg)))
   \<and> (map_of md ''description'' = None \<longrightarrow>
        (cls m \<noteq> LudeonModC \<longrightarrow>
           parse_description md (m, lg) = (m\<lparr>valid := False\<rparr>, lg @ [DescriptionNotParsed]))
        \<and> (cls m = LudeonModC \<longrightarrow> parse_description md (m, lg) = (m, lg)))
   \<and> (map_of md ''author'' = None \<and> map_of md ''authors'' = None \<longrightarrow>
        (cls m \<noteq> LudeonModC \<longrightarrow>
           parse_authors md (m, lg) = Inr (m\<lparr>valid := False\<rparr>, lg @ [AuthorsNotParsed]))
        \<and> (cls m = LudeonModC \<longrightarrow> parse_authors md (m, lg) = Inr (m, lg)))
   \<and> (map_of md ''supportedVersions'' = None \<longrightarrow>
        (cls m \<noteq> LudeonModC \<longrightarrow>
           parse_supported_versions md (m, lg)
             = Inr (m\<lparr>valid := False\<rparr>, lg @ [SupportedVersionsNotParsed]))
        \<and> (cls m = LudeonModC \<longrightarrow> parse_supported_versions md (m, lg) = Inr (m, lg)))"
proof -
  have a: "\<not> is_str v \<and> \<not> is_list v \<and> \<not> is_dict v \<longrightarrow> value_extractor v = PNone"
    by (cases v) simp_all
  have b: "value_extractor (PBool False) = PNone" by simp
  have c: "map_of md key = None \<longrightarrow>
        field_value md key = PNone
        \<and> \<not> is_str (field_value md key) \<and> \<not> is_list (field_value md key)"
    by (simp add: field_value_missing)
  have d: "map_of md ''packageId'' = None \<longrightarrow>
        parse_package_id md (m, lg) = (m\<lparr>valid := False\<rparr>, lg @ [PackageIdNotString PNone])"
    by (simp add: parse_package_id_def set_mod_invalid_def field_value_missing)
  have e: "map_of md ''name'' = None \<longrightarrow>
        (cls m \<noteq> LudeonModC \<longrightarrow> \<not> valid (fst (parse_name md (m, lg))))
        \<and> (cls m = LudeonModC \<longrightarrow> parse_name md (m, lg) = (m, lg))"
    by (simp add: parse_name_def set_mod_invalid_def field_value_missing split: pyval.splits)
  have f: "map_of md ''description'' = None \<longrightarrow>
        (cls m \<noteq> LudeonModC \<longrightarrow>
           parse_description md (m, lg) = (m\<lparr>valid := False\<rparr>, lg @ [DescriptionNotParsed]))
        \<and> (cls m = LudeonModC \<longrightarrow> parse_description md (m, lg) = (m, lg))"
    by (simp add: parse_description_def set_mod_invalid_def field_value_missing)
  have g: "map_of md ''author'' = None \<and> map_of md ''authors'' = None \<longrightarrow>
        (cls m \<noteq> LudeonModC \<longrightarrow>
           parse_authors md (m, lg) = Inr (m\<lparr>valid := False\<rparr>, lg @ [AuthorsNotParsed]))
        \<and> (cls m = LudeonModC \<longrightarrow> parse_authors md (m, lg) = Inr (m, lg))"
    by (simp add: parse_authors_def set_mod_invalid_def field_value_missing)
  have h: "map_of md ''supportedVersions'' = None \<longrightarrow>
        (cls m \<noteq> LudeonModC \<longrightarrow>
           parse_supported_versions md (m, lg)
             = Inr (m\<lparr>valid := False\<rparr>, lg @ [SupportedVersionsNotParsed]))
        \<and> (cls m = LudeonModC \<longrightarrow> parse_supported_versions md (m, lg) = Inr (m, lg))"
    by (simp add: parse_supported_versions_def set_mod_invalid_def field_value_missing)
  show ?thesis using a b c d e f g h by blast
qed

theorem value_extractor_sentinel_witness:
  "\<not> is_str (PBool True) \<and> \<not> is_list (PBool True) \<and> \<not> is_dict (PBool True)
   \<and> value_extractor (PBool True) = PNone
   \<and> map_of [(''url'', PStr ''u'')] ''packageId'' = None
   \<and> map_of [(''url'', PStr ''u'')] ''name'' = None
   \<and> map_of [(''url'', PStr ''u'')] ''description'' = None
   \<and> map_of [(''url'', PStr ''u'')] ''author'' = None
   \<and> map_of [(''url'', PStr ''u'')] ''authors'' = None
   \<and> map_of [(''url'', PStr ''u'')] ''supportedVersions'' = None
   \<and> cls RuledMod_new \<noteq> LudeonModC
   \<and> cls (LudeonMod RuledMod_new 1) = LudeonModC
   \<and> field_value [(''url'', PStr ''u'')] ''packageId'' = PNone
   \<and> parse_package_id [(''url'', PStr ''u'')] (RuledMod_new, [])
        = (RuledMod_new\<lparr>valid := False\<rparr>, [PackageIdNotString PNone])
   \<and> \<not> valid (fst (parse_name [(''url'', PStr ''u'')] (RuledMod_new, [])))
   \<and> parse_description [(''url'', PStr ''u'')] (RuledMod_new, [])
        = (RuledMod_new\<lparr>valid := False\<rparr>, [DescriptionNotParsed])
   \<and> parse_authors [(''url'', PStr ''u'')] (RuledMod_new, [])
        = Inr (RuledMod_new\<lparr>valid := False\<rparr>, [AuthorsNotParsed])
   \<and> parse_supported_versions [(''url'', PStr ''u'')] (RuledMod_new, [])
        = Inr (RuledMod_new\<lparr>valid := False\<rparr>, [SupportedVersionsNotParsed])
   \<and> parse_name [(''url'', PStr ''u'')] (LudeonMod RuledMod_new 1, [])
        = (LudeonMod RuledMod_new 1, [])"
proof -
  have c1: "cls RuledMod_new \<noteq> LudeonModC"
    by (simp add: RuledMod_new_def ListedMod_new_def)
  have c2: "cls (LudeonMod RuledMod_new 1) = LudeonModC"
    by (simp add: LudeonMod_def)
  show ?thesis
    using c1 c2
      value_extractor_sentinel [of "PBool True" "[(''url'', PStr ''u'')]" "''packageId''" RuledMod_new "[]"]
      value_extractor_sentinel [of "PBool True" "[(''url'', PStr ''u'')]" "''packageId''"
        "LudeonMod RuledMod_new 1" "[]"]
    by simp
qed

lemma parse_optional_raises: "parse_optional md st tv \<noteq> Inr r"
  by (simp add: parse_optional_def split: sum.splits)

lemma create_listed_mod_raises: "create_listed_mod T md tv \<noteq> Inr r"
  using parse_optional_raises
  by (auto simp: create_listed_mod_def Let_def split: sum.splits prod.splits)

lemmas eval_defs =
  parse_required_def parse_package_id_def ludeon_upgrade_def parse_name_def
  parse_description_def parse_authors_def parse_supported_versions_def
  get_dlc_packageid_appid_map_def LudeonMod_def RuledMod_new_def ListedMod_new_def
  field_value_def dict_get_def CaseInsensitiveStr_def lower_char_def set_mod_invalid_def

lemmas rules_defs =
  create_base_rules_def extend_versioned_def as_list_def match_version_def
  load_operations_def load_operations_list_def CaseInsensitiveSet_def BaseRules_new_def
  create_mod_dependency_def DependencyMod_new_def dict_get_def CaseInsensitiveStr_def
  lower_char_def version_regex_def re_match_def read_atom_def quant_of_def ascii_alnum_def

text \<open>
  Claim C1. The claim asks that a descriptor with a valid identifier, name,
  description, one author and one supported version gives, from
  \<open>create_listed_mod\<close>, a record whose validity flag is true, and that no failure
  passes the entry point. On such a descriptor \<open>_parse_required\<close> does build a valid
  record, but \<open>_parse_optional\<close> ends in \<open>raise NotImplementedError\<close>: the call
  of line 107 never returns, on this descriptor or on any other, and the entry point
  calls \<open>create_listed_mod\<close> outside its \<open>try\<close>, so the exception leaves it.
\<close>

theorem create_listed_mod_not_implemented:
  "parse_required []
     [(''packageId'', PStr ''foo.bar''), (''name'', PStr ''Foo''),
      (''description'', PStr ''A mod''), (''author'', PStr ''me''),
      (''supportedVersions'', PDict [(''li'', PStr ''1.5'')])]
     RuledMod_new
   = Inr (\<lparr>cls = RuledModC, package_id = ''foo.bar'', name = ''Foo'',
           description = ''A mod'', authors = [PStr ''me''],
           supported_versions = {PStr ''1.5''}, valid = True,
           mod_path = None, steam_app_id = None, mod_version = None,
           mod_icon_path = None, url = None, about_rules = None\<rparr>, [])
   \<and> create_listed_mod []
        [(''packageId'', PStr ''foo.bar''), (''name'', PStr ''Foo''),
         (''description'', PStr ''A mod''), (''author'', PStr ''me''),
         (''supportedVersions'', PDict [(''li'', PStr ''1.5'')])]
        ''1.5''
      = Inl NotImplementedError
   \<and> create_listed_mod_from_xml []
        (\<lambda>path. Inr (PDict [(''ModMetaData'', PDict
           [(''packageId'', PStr ''foo.bar''), (''name'', PStr ''Foo''),
            (''description'', PStr ''A mod''), (''author'', PStr ''me''),
            (''supportedVersions'', PDict [(''li'', PStr ''1.5'')])])]))
        ''About.xml'' ''1.5''
      = Inl NotImplementedError
   \<and> create_listed_mod T md tv \<noteq> Inr r"
proof -
  have a: "parse_required []
     [(''packageId'', PStr ''foo.bar''), (''name'', PStr ''Foo''),
      (''description'', PStr ''A mod''), (''author'', PStr ''me''),
      (''supportedVersions'', PDict [(''li'', PStr ''1.5'')])]
     RuledMod_new
   = Inr (\<lparr>cls = RuledModC, package_id = ''foo.bar'', name = ''Foo'',
           description = ''A mod'', authors = [PStr ''me''],
           supported_versions = {PStr ''1.5''}, valid = True,
           mod_path = None, steam_app_id = None, mod_version = None,
           mod_icon_path = None, url = None, about_rules = None\<rparr>, [])"
    by (simp add: eval_defs)
  have b: "\<exists>rules lg. create_base_rules
        [(''packageId'', PStr ''foo.bar''), (''name'', PStr ''Foo''),
         (''description'', PStr ''A mod''), (''author'', PStr ''me''),
         (''supportedVersions'', PDict [(''li'', PStr ''1.5'')])] ''1.5'' = Inr (rules, lg)"
    by (simp add: rules_defs field_value_def)
  have c: "create_listed_mod []
        [(''packageId'', PStr ''foo.bar''), (''name'', PStr ''Foo''),
         (''description'', PStr ''A mod''), (''author'', PStr ''me''),
         (''supportedVersions'', PDict [(''li'', PStr ''1.5'')])]
        ''1.5''
      = Inl NotImplementedError"
    using b unfolding create_listed_mod_def a
    by (auto simp: parse_optional_def parse_optional_fill_def Let_def split: option.splits)
  have d: "create_listed_mod_from_xml []
        (\<lambda>path. Inr (PDict [(''ModMetaData'', PDict
           [(''packageId'', PStr ''foo.bar''), (''name'', PStr ''Foo''),
            (''description'', PStr ''A mod''), (''author'', PStr ''me''),
            (''supportedVersions'', PDict [(''li'', PStr ''1.5'')])])]))
        ''About.xml'' ''1.5''
      = Inl NotImplementedError"
    unfolding create_listed_mod_from_xml_def by (simp add: subscript_def c)
  show ?thesis using a c d create_listed_mod_raises by blast
qed

text \<open>
  Claim C8. When the deserializer raises for a path, or the tree it returns has no
  entry \<open>ModMetaData\<close> (or is no dictionary at all), the entry point returns
  \<open>(False, ListedMod(valid=False))\<close>, an empty invalid record of the base class,
  and raises nothing. The result for any other path does not depend on what the
  deserializer does for this one.
\<close>

theorem entry_point_structural_failure:
  assumes "xml p = Inl e
           \<or> (\<exists>root. xml p = Inr root \<and> (\<forall>d. root = PDict d \<longrightarrow> map_of d ''ModMetaData'' = None))"
  shows "create_listed_mod_from_xml T xml p tv = Inr ((False, invalid_mod), [UnableToParse p])
    \<and> invalid_mod =
        \<lparr>cls = ListedModC, package_id = [], name = [], description = [], authors = [],
         supported_versions = {}, valid = False, mod_path = None, steam_app_id = None,
         mod_version = None, mod_icon_path = None, url = None, about_rules = None\<rparr>
    \<and> (\<forall>q. q \<noteq> p \<longrightarrow>
          create_listed_mod_from_xml T xml q tv
            = create_listed_mod_from_xml T (xml(p := Inr good)) q tv)"
proof -
  have a: "create_listed_mod_from_xml T xml p tv = Inr ((False, invalid_mod), [UnableToParse p])"
    using assms
    by (auto simp: create_listed_mod_from_xml_def subscript_def split: pyval.splits)
  have b: "invalid_mod =
        \<lparr>cls = ListedModC, package_id = [], name = [], description = [], authors = [],
         supported_versions = {}, valid = False, mod_path = None, steam_app_id = None,
         mod_version = None, mod_icon_path = None, url = None, about_rules = None\<rparr>"
    by (simp add: invalid_mod_def ListedMod_new_def)
  have c: "\<forall>q. q \<noteq> p \<longrightarrow>
          create_listed_mod_from_xml T xml q tv
            = create_listed_mod_from_xml T (xml(p := Inr good)) q tv"
    by (simp add: create_listed_mod_from_xml_def)
  show ?thesis using a b c by blast
qed

theorem entry_point_structural_failure_witness:
  "create_listed_mod_from_xml [] (\<lambda>path. Inl DeserializeError) ''a/About.xml'' ''1.5''
     = Inr ((False, invalid_mod), [UnableToParse ''a/About.xml''])
   \<and> create_listed_mod_from_xml [] (\<lambda>path. Inr (PDict [(''Other'', PStr ''x'')])) ''a/About.xml'' ''1.5''
     = Inr ((False, invalid_mod), [UnableToParse ''a/About.xml''])
   \<and> \<not> valid invalid_mod"
proof -
  have v: "\<not> valid invalid_mod"
    by (simp add: invalid_mod_def ListedMod_new_def)
  show ?thesis
    using v entry_point_structural_failure
        [where xml = "\<lambda>path. Inl DeserializeError" and p = "''a/About.xml''"
           and e = DeserializeError and T = "[]" and tv = "''1.5''" and good = PNone]
      entry_point_structural_failure
        [where xml = "\<lambda>path. Inr (PDict [(''Other'', PStr ''x'')])" and p = "''a/About.xml''"
           and e = DeserializeError and T = "[]" and tv = "''1.5''" and good = PNone]
    by simp
qed

section \<open>Properties of the rule builder\<close>

lemma dependency_loop_append:
  "dependency_loop (xs @ ys) st = dependency_loop ys (dependency_loop xs st)"
  by (induction xs st rule: dependency_loop.induct) (simp_all add: Let_def)

lemma dependency_loop_distinct:
  "dependency_loop ds (deps0, lg0) = (deps, lg) \<Longrightarrow> distinct (map fst deps0)
   \<Longrightarrow> distinct (map fst deps)"
  by (induction ds "(deps0, lg0)" arbitrary: deps0 lg0 rule: dependency_loop.induct)
     (auto simp: Let_def split: if_splits)

lemma dependency_loop_lookup:
  "dependency_loop ds (deps0, lg0) = (deps, lg) \<Longrightarrow>
   map_of deps k =
     (case map_of deps0 k of
        Some x \<Rightarrow> Some x
      | None \<Rightarrow> map_option create_mod_dependency
                 (find (\<lambda>d. dep_package_id (create_mod_dependency d) = k) (dict_entries ds)))"
proof (induction ds "(deps0, lg0)" arbitrary: deps0 lg0 rule: dependency_loop.induct)
  case 1
  then show ?case by (simp split: option.splits)
next
  case (2 d rest deps0 lg0)
  show ?case
  proof (cases "dep_package_id (create_mod_dependency d) \<in> set (map fst deps0)")
    case True
    then have "dependency_loop rest
        (deps0, lg0 @ [DuplicateDependency (dep_package_id (create_mod_dependency d))]) = (deps, lg)"
      using 2(3) by (simp add: Let_def)
    from 2(1) [OF refl True this] have ih: "map_of deps k =
       (case map_of deps0 k of
          Some x \<Rightarrow> Some x
        | None \<Rightarrow> map_option create_mod_dependency
                   (find (\<lambda>d. dep_package_id (create_mod_dependency d) = k) (dict_entries rest)))" .
    show ?thesis
    proof (cases "map_of deps0 k")
      case None
      then have "k \<notin> set (map fst deps0)" by (simp add: map_of_eq_None_iff)
      with True have "dep_package_id (create_mod_dependency d) \<noteq> k" by auto
      then show ?thesis using ih None by simp
    next
      case (Some x)
      then show ?thesis using ih by simp
    qed
  next
    case False
    then have "dependency_loop rest
        (deps0 @ [(dep_package_id (create_mod_dependency d), create_mod_dependency d)], lg0)
        = (deps, lg)"
      using 2(3) by (simp add: Let_def)
    from 2(2) [OF refl False this] False show ?thesis
      by (auto simp: map_add_def split: option.splits)
  qed
qed (simp_all cong: option.case_cong)

lemma dependency_loop_count:
  "dependency_loop ds (deps0, lg0) = (deps, lg) \<Longrightarrow>
   length deps + length lg = length deps0 + length lg0 + length ds"
  by (induction ds "(deps0, lg0)" arbitrary: deps0 lg0 rule: dependency_loop.induct)
     (auto simp: Let_def split: if_splits)

lemma dependency_loop_log_grows:
  "dependency_loop ds (deps0, lg0) = (deps, lg) \<Longrightarrow> set lg0 \<subseteq> set lg"
  by (induction ds "(deps0, lg0)" arbitrary: deps0 lg0 rule: dependency_loop.induct)
     (auto simp: Let_def split: if_splits)

lemma dependency_loop_invalid_logged:
  "dependency_loop ds (deps0, lg0) = (deps, lg) \<Longrightarrow> x \<in> set ds \<Longrightarrow> \<not> is_dict x
   \<Longrightarrow> InvalidDependency x \<in> set lg"
proof (induction ds "(deps0, lg0)" arbitrary: deps0 lg0 rule: dependency_loop.induct)
  case 1
  then show ?case by simp
next
  case (2 d rest deps0 lg0)
  then show ?case by (auto simp: Let_def split: if_splits)
qed (use dependency_loop_log_grows in \<open>fastforce\<close>)+


lemma dependency_loop_duplicate_logged:
  assumes "dependency_loop (xs @ PDict d # ys) ([], []) = (deps, lg)"
    and "\<exists>d' \<in> set (dict_entries xs).
           dep_package_id (create_mod_dependency d') = dep_package_id (create_mod_dependency d)"
  shows "DuplicateDependency (dep_package_id (create_mod_dependency d)) \<in> set lg"
proof -
  obtain deps1 lg1 where s1: "dependency_loop xs ([], []) = (deps1, lg1)"
    by (cases "dependency_loop xs ([], [])")
  have "find (\<lambda>e. dep_package_id (create_mod_dependency e)
                   = dep_package_id (create_mod_dependency d)) (dict_entries xs) \<noteq> None"
    using assms(2) by (auto simp: find_None_iff)
  then have "map_of deps1 (dep_package_id (create_mod_dependency d)) \<noteq> None"
    using dependency_loop_lookup [OF s1, of "dep_package_id (create_mod_dependency d)"] by simp
  then have mem: "dep_package_id (create_mod_dependency d) \<in> set (map fst deps1)"
    by (simp add: map_of_eq_None_iff)
  have "dependency_loop ys
          (deps1, lg1 @ [DuplicateDependency (dep_package_id (create_mod_dependency d))])
        = (deps, lg)"
    using assms(1) s1 mem by (simp add: dependency_loop_append Let_def)
  from dependency_loop_log_grows [OF this] show ?thesis by simp
qed

lemma parse_optional_fill_valid:
  "parse_optional_fill md (m, l) tv = Inr (m', l') \<Longrightarrow> valid m' = valid m"
  by (auto simp: parse_optional_fill_def Let_def split: option.splits sum.splits)

lemma upper_lower_pair:
  "(a, b) \<in> set (zip ''ABCDEFGHIJKLMNOPQRSTUVWXYZ'' ''abcdefghijklmnopqrstuvwxyz'')
   \<Longrightarrow> lower_char a = b \<and> lower_char b = b"
  apply simp
  apply (elim disjE conjE)
  apply (simp_all add: lower_char_def)
  done

lemma same_letter_lower: "same_letter a b \<Longrightarrow> lower_char a = lower_char b"
  unfolding same_letter_def using upper_lower_pair [of a b] upper_lower_pair [of b a] by metis

lemma differ_only_by_case_folds:
  "differ_only_by_case s t \<Longrightarrow> CaseInsensitiveStr s = CaseInsensitiveStr t"
  unfolding differ_only_by_case_def CaseInsensitiveStr_def
  by (induction rule: list_all2_induct) (simp_all add: same_letter_lower)

lemma dependency_key:
  "dep_package_id (create_mod_dependency d) =
     (case dict_get d ''packageId'' (PBool False) of
        PStr s \<Rightarrow> Some (CaseInsensitiveStr s)
      | _ \<Rightarrow> None)"
  by (simp add: create_mod_dependency_def DependencyMod_new_def Let_def split: pyval.splits)

lemma dict_entries_append: "dict_entries (xs @ ys) = dict_entries xs @ dict_entries ys"
  by (induction xs rule: dict_entries.induct) simp_all

lemma find_append_none:
  "find P xs = None \<Longrightarrow> find P (xs @ ys) = find P ys"
  by (induction xs) (auto split: if_splits)

lemma one_entry_per_key:
  "distinct (map fst xs) \<Longrightarrow> k \<in> set (map fst xs) \<Longrightarrow> length (filter (\<lambda>e. fst e = k) xs) = 1"
proof (induction xs)
  case Nil
  then show ?case by simp
next
  case (Cons x xs)
  show ?case
  proof (cases "fst x = k")
    case True
    then have "k \<notin> set (map fst xs)" using Cons.prems(1) by auto
    then have "filter (\<lambda>e. fst e = k) xs = []" by (auto simp: filter_empty_conv)
    then show ?thesis using True by simp
  next
    case False
    then show ?thesis using Cons by auto
  qed
qed

lemma case_variants_collide:
  assumes loop: "dependency_loop ds ([], []) = (deps, lg)"
    and ds: "ds = xs @ PDict d1 # ys @ PDict d2 # zs"
    and s: "dict_get d1 ''packageId'' (PBool False) = PStr s"
    and t: "dict_get d2 ''packageId'' (PBool False) = PStr t"
    and st: "differ_only_by_case s t"
  shows "length (filter (\<lambda>e. fst e = Some (CaseInsensitiveStr s)) deps) = 1"
    and "DuplicateDependency (Some (CaseInsensitiveStr t)) \<in> set lg"
    and "(\<forall>d' \<in> set (dict_entries xs).
            dep_package_id (create_mod_dependency d') \<noteq> Some (CaseInsensitiveStr s))
         \<Longrightarrow> map_of deps (Some (CaseInsensitiveStr s)) = Some (create_mod_dependency d1)"
proof -
  have k1: "dep_package_id (create_mod_dependency d1) = Some (CaseInsensitiveStr s)"
    using s by (simp add: dependency_key)
  have k2: "dep_package_id (create_mod_dependency d2) = Some (CaseInsensitiveStr t)"
    using t by (simp add: dependency_key)
  have eq: "CaseInsensitiveStr s = CaseInsensitiveStr t"
    using st by (rule differ_only_by_case_folds)
  have de: "dict_entries ds = dict_entries xs @ d1 # dict_entries (ys @ PDict d2 # zs)"
    using ds by (simp add: dict_entries_append)
  have "d1 \<in> set (dict_entries ds)" using de by simp
  then have "find (\<lambda>d. dep_package_id (create_mod_dependency d) = Some (CaseInsensitiveStr s))
               (dict_entries ds) \<noteq> None"
    using k1 by (auto simp: find_None_iff)
  then have "map_of deps (Some (CaseInsensitiveStr s)) \<noteq> None"
    using dependency_loop_lookup [OF loop, of "Some (CaseInsensitiveStr s)"] by simp
  then have mem: "Some (CaseInsensitiveStr s) \<in> set (map fst deps)"
    by (simp add: map_of_eq_None_iff)
  have dist: "distinct (map fst deps)"
    using dependency_loop_distinct [OF loop] by simp
  show "length (filter (\<lambda>e. fst e = Some (CaseInsensitiveStr s)) deps) = 1"
    using one_entry_per_key [OF dist mem] .
  have l2: "dependency_loop ((xs @ PDict d1 # ys) @ PDict d2 # zs) ([], []) = (deps, lg)"
    using loop ds by simp
  have "\<exists>d' \<in> set (dict_entries (xs @ PDict d1 # ys)).
          dep_package_id (create_mod_dependency d') = dep_package_id (create_mod_dependency d2)"
    using k1 k2 eq by (auto simp: dict_entries_append)
  from dependency_loop_duplicate_logged [OF l2 this]
  show "DuplicateDependency (Some (CaseInsensitiveStr t)) \<in> set lg"
    by (simp add: k2)
  show "map_of deps (Some (CaseInsensitiveStr s)) = Some (create_mod_dependency d1)"
    if "\<forall>d' \<in> set (dict_entries xs).
            dep_package_id (create_mod_dependency d') \<noteq> Some (CaseInsensitiveStr s)"
  proof -
    have "find (\<lambda>d. dep_package_id (create_mod_dependency d) = Some (CaseInsensitiveStr s))
            (dict_entries xs) = None"
      using that by (auto simp: find_None_iff)
    then have "find (\<lambda>d. dep_package_id (create_mod_dependency d) = Some (CaseInsensitiveStr s))
            (dict_entries ds) = Some d1"
      unfolding de using k1 by (simp add: find_append_none)
    then show ?thesis
      using dependency_loop_lookup [OF loop, of "Some (CaseInsensitiveStr s)"] by simp
  qed
qed

lemma match_version_collects:
  assumes plain: "\<forall>c \<in> set (major @ minor). \<not> regex_special c"
    and target: "target = major @ ''.'' @ minor
                 \<or> (\<exists>more. target = major @ ''.'' @ minor @ ''.'' @ more)"
  shows "match_version d target False =
           (if map snd (filter (\<lambda>kv. prefix (''v'' @ major @ ''.'' @ minor) (fst kv)) d) = []
            then Inr (False, None)
            else Inr (True, Some (map snd (filter (\<lambda>kv. prefix (''v'' @ major @ ''.'' @ minor)
                                                   (fst kv)) d))))"
proof -
  have nd: "CHR ''.'' \<notin> set major" "CHR ''.'' \<notin> set minor"
    using plain special_dot by auto
  have t: "take 2 (split_dot target) = [major, minor]"
    using take2_split [OF nd target] .
  show ?thesis
    unfolding match_version_def t
    using match_loop_all [of "version_regex major minor"
        "prefix (''v'' @ major @ ''.'' @ minor)" d "[]", OF re_match_version_regex [OF plain]]
    by simp
qed

lemma extend_versioned_plain:
  assumes plain: "\<forall>c \<in> set (major @ minor). \<not> regex_special c"
    and target: "target = major @ ''.'' @ minor
                 \<or> (\<exists>more. target = major @ ''.'' @ minor @ ''.'' @ more)"
  shows "extend_versioned xs v target =
           Inr (xs @ (case v of
                        PDict d \<Rightarrow> map snd (filter (\<lambda>kv. prefix (''v'' @ major @ ''.'' @ minor)
                                                         (fst kv)) d)
                      | _ \<Rightarrow> []))"
  by (cases v) (simp_all add: extend_versioned_def match_version_collects [OF plain target])

lemma create_base_rules_link:
  assumes "create_base_rules md tv = Inr (rules, l)"
  shows "\<exists>merged.
           extend_versioned
             (as_list (value_extractor (dict_get md ''modDependencies'' (PList []))))
             (value_extractor (dict_get md ''modDependenciesByVersion'' (PDict []))) tv
             = Inr merged
           \<and> dependency_loop merged ([], []) = (dependencies rules, l)"
  using assms
  by (auto simp: create_base_rules_def BaseRules_new_def split: sum.splits prod.splits)

text \<open>
  Claim C6. Of the dependency entries with the same identifier under case folding,
  the loop of \<open>create_base_rules\<close> keeps the first one and no other. The key of an
  entry is its case-folded identifier, so two entries whose identifiers differ only
  by case, such as \<open>Foo\<close> and \<open>foo\<close>, have the same key: exactly one entry with
  that key is in \<open>rules.dependencies\<close>, it is the first of the list with that key,
  and the later one is dropped and logged as a duplicate. The keys are distinct, every
  entry that is not a dictionary is dropped and logged as invalid, and every entry
  either survives or is logged. The list the loop runs over is the unconditioned
  entries of the descriptor followed by the version-matched ones, and the
  dependencies of the rule set returned are the outcome of the loop on that list. The
  pass that attaches the rule set to the record leaves the validity flag untouched.
\<close>

theorem dependencies_first_wins:
  assumes "dependency_loop ds ([], []) = (deps, lg)"
  shows "distinct (map fst deps)
    \<and> (\<forall>k. map_of deps k =
           map_option create_mod_dependency
             (find (\<lambda>d. dep_package_id (create_mod_dependency d) = k) (dict_entries ds)))
    \<and> length deps + length lg = length ds
    \<and> (\<forall>x \<in> set ds. \<not> is_dict x \<longrightarrow> InvalidDependency x \<in> set lg)
    \<and> (\<forall>xs d ys. ds = xs @ PDict d # ys
          \<and> (\<exists>d' \<in> set (dict_entries xs).
                dep_package_id (create_mod_dependency d') = dep_package_id (create_mod_dependency d))
          \<longrightarrow> DuplicateDependency (dep_package_id (create_mod_dependency d)) \<in> set lg)
    \<and> (\<forall>d. dep_package_id (create_mod_dependency d) =
               (case dict_get d ''packageId'' (PBool False) of
                  PStr s \<Rightarrow> Some (CaseInsensitiveStr s)
                | _ \<Rightarrow> None))
    \<and> (\<forall>s t. differ_only_by_case s t \<longrightarrow> CaseInsensitiveStr s = CaseInsensitiveStr t)
    \<and> (\<forall>xs d1 ys d2 zs s t.
          ds = xs @ PDict d1 # ys @ PDict d2 # zs
          \<and> dict_get d1 ''packageId'' (PBool False) = PStr s
          \<and> dict_get d2 ''packageId'' (PBool False) = PStr t
          \<and> differ_only_by_case s t
          \<longrightarrow> length (filter (\<lambda>e. fst e = Some (CaseInsensitiveStr s)) deps) = 1
              \<and> DuplicateDependency (Some (CaseInsensitiveStr t)) \<in> set lg
              \<and> ((\<forall>d' \<in> set (dict_entries xs).
                     dep_package_id (create_mod_dependency d') \<noteq> Some (CaseInsensitiveStr s))
                   \<longrightarrow> map_of deps (Some (CaseInsensitiveStr s)) = Some (create_mod_dependency d1)))
    \<and> (\<forall>rules l. create_base_rules md tv = Inr (rules, l) \<longrightarrow>
          (\<exists>merged.
             extend_versioned
               (as_list (value_extractor (dict_get md ''modDependencies'' (PList []))))
               (value_extractor (dict_get md ''modDependenciesByVersion'' (PDict []))) tv
               = Inr merged
             \<and> dependency_loop merged ([], []) = (dependencies rules, l)))
    \<and> ((\<forall>c \<in> set (major @ minor). \<not> regex_special c)
         \<and> (tv = major @ ''.'' @ minor \<or> (\<exists>more. tv = major @ ''.'' @ minor @ ''.'' @ more))
         \<longrightarrow> (\<forall>rules l. create_base_rules md tv = Inr (rules, l) \<longrightarrow>
                dependency_loop
                  (as_list (value_extractor (dict_get md ''modDependencies'' (PList [])))
                   @ (case value_extractor (dict_get md ''modDependenciesByVersion'' (PDict [])) of
                        PDict d \<Rightarrow> map snd (filter (\<lambda>kv. prefix (''v'' @ major @ ''.'' @ minor)
                                                         (fst kv)) d)
                      | _ \<Rightarrow> []))
                  ([], [])
                = (dependencies rules, l)))
    \<and> (\<forall>m l m' l'. parse_optional_fill md (m, l) tv = Inr (m', l') \<longrightarrow> valid m' = valid m)"
proof -
  have a: "distinct (map fst deps)"
    using dependency_loop_distinct [OF assms] by simp
  have b: "\<forall>k. map_of deps k =
           map_option create_mod_dependency
             (find (\<lambda>d. dep_package_id (create_mod_dependency d) = k) (dict_entries ds))"
    using dependency_loop_lookup [OF assms] by simp
  have c: "length deps + length lg = length ds"
    using dependency_loop_count [OF assms] by simp
  have d: "\<forall>x \<in> set ds. \<not> is_dict x \<longrightarrow> InvalidDependency x \<in> set lg"
    using dependency_loop_invalid_logged [OF assms] by blast
  have e: "\<forall>xs d ys. ds = xs @ PDict d # ys
          \<and> (\<exists>d' \<in> set (dict_entries xs).
                dep_package_id (create_mod_dependency d') = dep_package_id (create_mod_dependency d))
          \<longrightarrow> DuplicateDependency (dep_package_id (create_mod_dependency d)) \<in> set lg"
    using dependency_loop_duplicate_logged assms by blast
  have f: "\<forall>d. dep_package_id (create_mod_dependency d) =
               (case dict_get d ''packageId'' (PBool False) of
                  PStr s \<Rightarrow> Some (CaseInsensitiveStr s)
                | _ \<Rightarrow> None)"
    using dependency_key by blast
  have g: "\<forall>s t. differ_only_by_case s t \<longrightarrow> CaseInsensitiveStr s = CaseInsensitiveStr t"
    using differ_only_by_case_folds by blast
  have h: "\<forall>xs d1 ys d2 zs s t.
          ds = xs @ PDict d1 # ys @ PDict d2 # zs
          \<and> dict_get d1 ''packageId'' (PBool False) = PStr s
          \<and> dict_get d2 ''packageId'' (PBool False) = PStr t
          \<and> differ_only_by_case s t
          \<longrightarrow> length (filter (\<lambda>e. fst e = Some (CaseInsensitiveStr s)) deps) = 1
              \<and> DuplicateDependency (Some (CaseInsensitiveStr t)) \<in> set lg
              \<and> ((\<forall>d' \<in> set (dict_entries xs).
                     dep_package_id (create_mod_dependency d') \<noteq> Some (CaseInsensitiveStr s))
                   \<longrightarrow> map_of deps (Some (CaseInsensitiveStr s)) = Some (create_mod_dependency d1))"
  proof (intro allI impI, elim conjE)
    fix xs d1 ys d2 zs s t
    assume ds: "ds = xs @ PDict d1 # ys @ PDict d2 # zs"
      and s: "dict_get d1 ''packageId'' (PBool False) = PStr s"
      and t: "dict_get d2 ''packageId'' (PBool False) = PStr t"
      and st: "differ_only_by_case s t"
    note cv = case_variants_collide [OF assms ds s t st]
    have h1: "length (filter (\<lambda>e. fst e = Some (CaseInsensitiveStr s)) deps) = 1"
      by (rule cv(1))
    have h2: "DuplicateDependency (Some (CaseInsensitiveStr t)) \<in> set lg"
      by (rule cv(2))
    have h3: "(\<forall>d' \<in> set (dict_entries xs).
                     dep_package_id (create_mod_dependency d') \<noteq> Some (CaseInsensitiveStr s))
                   \<longrightarrow> map_of deps (Some (CaseInsensitiveStr s)) = Some (create_mod_dependency d1)"
      using cv(3) by (rule impI)
    show "length (filter (\<lambda>e. fst e = Some (CaseInsensitiveStr s)) deps) = 1
              \<and> DuplicateDependency (Some (CaseInsensitiveStr t)) \<in> set lg
              \<and> ((\<forall>d' \<in> set (dict_entries xs).
                     dep_package_id (create_mod_dependency d') \<noteq> Some (CaseInsensitiveStr s))
                   \<longrightarrow> map_of deps (Some (CaseInsensitiveStr s)) = Some (create_mod_dependency d1))"
      using h1 h2 h3 by (intro conjI)
  qed
  have i: "\<forall>rules l. create_base_rules md tv = Inr (rules, l) \<longrightarrow>
          (\<exists>merged.
             extend_versioned
               (as_list (value_extractor (dict_get md ''modDependencies'' (PList []))))
               (value_extractor (dict_get md ''modDependenciesByVersion'' (PDict []))) tv
               = Inr merged
             \<and> dependency_loop merged ([], []) = (dependencies rules, l))"
    using create_base_rules_link by blast
  have j: "(\<forall>c \<in> set (major @ minor). \<not> regex_special c)
         \<and> (tv = major @ ''.'' @ minor \<or> (\<exists>more. tv = major @ ''.'' @ minor @ ''.'' @ more))
         \<longrightarrow> (\<forall>rules l. create_base_rules md tv = Inr (rules, l) \<longrightarrow>
                dependency_loop
                  (as_list (value_extractor (dict_get md ''modDependencies'' (PList [])))
                   @ (case value_extractor (dict_get md ''modDependenciesByVersion'' (PDict [])) of
                        PDict d \<Rightarrow> map snd (filter (\<lambda>kv. prefix (''v'' @ major @ ''.'' @ minor)
                                                         (fst kv)) d)
                      | _ \<Rightarrow> []))
                  ([], [])
                = (dependencies rules, l))"
  proof (intro impI allI, elim conjE)
    fix rules l
    assume plain: "\<forall>c \<in> set (major @ minor). \<not> regex_special c"
      and target: "tv = major @ ''.'' @ minor \<or> (\<exists>more. tv = major @ ''.'' @ minor @ ''.'' @ more)"
      and r: "create_base_rules md tv = Inr (rules, l)"
    from create_base_rules_link [OF r] obtain merged where
      m: "extend_versioned
               (as_list (value_extractor (dict_get md ''modDependencies'' (PList []))))
               (value_extractor (dict_get md ''modDependenciesByVersion'' (PDict []))) tv
               = Inr merged"
      and lp: "dependency_loop merged ([], []) = (dependencies rules, l)"
      by blast
    from m extend_versioned_plain [OF plain target] lp
    show "dependency_loop
                  (as_list (value_extractor (dict_get md ''modDependencies'' (PList [])))
                   @ (case value_extractor (dict_get md ''modDependenciesByVersion'' (PDict [])) of
                        PDict d \<Rightarrow> map snd (filter (\<lambda>kv. prefix (''v'' @ major @ ''.'' @ minor)
                                                         (fst kv)) d)
                      | _ \<Rightarrow> []))
                  ([], [])
                = (dependencies rules, l)"
      by simp
  qed
  have k: "\<forall>m l m' l'. parse_optional_fill md (m, l) tv = Inr (m', l') \<longrightarrow> valid m' = valid m"
    using parse_optional_fill_valid by blast
  show ?thesis
    by (intro conjI) (fact a, fact b, fact c, fact d, fact e, fact f, fact g, fact h, fact i,
        fact j, fact k)
qed


theorem dependencies_first_wins_witness:
  "dependency_loop
     [PDict [(''packageId'', PStr ''Foo''), (''displayName'', PStr ''first'')],
      PStr ''x'',
      PDict [(''packageId'', PStr ''foo''), (''displayName'', PStr ''second'')]] ([], [])
   = ([(Some ''foo'', \<lparr>dep_package_id = Some ''foo'', dep_name = Some ''first'', dep_workshop_url = None\<rparr>)],
      [InvalidDependency (PStr ''x''), DuplicateDependency (Some ''foo'')])
   \<and> differ_only_by_case ''Foo'' ''foo''
   \<and> distinct (map fst [(Some ''foo'', \<lparr>dep_package_id = Some ''foo'', dep_name = Some ''first'', dep_workshop_url = None\<rparr>)])
   \<and> length (filter (\<lambda>e. fst e = Some (CaseInsensitiveStr ''Foo'')) [(Some ''foo'', \<lparr>dep_package_id = Some ''foo'', dep_name = Some ''first'', dep_workshop_url = None\<rparr>)]) = 1
   \<and> DuplicateDependency (Some (CaseInsensitiveStr ''foo'')) \<in> set [InvalidDependency (PStr ''x''), DuplicateDependency (Some ''foo'')]
   \<and> map_of [(Some ''foo'', \<lparr>dep_package_id = Some ''foo'', dep_name = Some ''first'', dep_workshop_url = None\<rparr>)] (Some (CaseInsensitiveStr ''Foo''))
       = Some (create_mod_dependency [(''packageId'', PStr ''Foo''), (''displayName'', PStr ''first'')])
   \<and> parse_optional_fill
        [(''modDependencies'', PList
           [PDict [(''packageId'', PStr ''Foo''), (''displayName'', PStr ''first'')],
      PStr ''x'',
      PDict [(''packageId'', PStr ''foo''), (''displayName'', PStr ''second'')]])]
        (RuledMod_new, []) ''1.5''
       = Inr (RuledMod_new\<lparr>about_rules := Some
                \<lparr>dependencies = [(Some ''foo'', \<lparr>dep_package_id = Some ''foo'', dep_name = Some ''first'', dep_workshop_url = None\<rparr>)],
                 load_before = {}, load_after = {}, incompatible_with = {}\<rparr>\<rparr>,
              [InvalidDependency (PStr ''x''), DuplicateDependency (Some ''foo'')])
   \<and> valid RuledMod_new"
proof -
  have h: "dependency_loop
     [PDict [(''packageId'', PStr ''Foo''), (''displayName'', PStr ''first'')],
      PStr ''x'',
      PDict [(''packageId'', PStr ''foo''), (''displayName'', PStr ''second'')]] ([], [])
   = ([(Some ''foo'', \<lparr>dep_package_id = Some ''foo'', dep_name = Some ''first'', dep_workshop_url = None\<rparr>)],
      [InvalidDependency (PStr ''x''), DuplicateDependency (Some ''foo'')])"
    by (simp add: create_mod_dependency_def DependencyMod_new_def dict_get_def
        CaseInsensitiveStr_def lower_char_def Let_def)
  note th = dependencies_first_wins [OF h, where md = "[(''modDependencies'', PList
           [PDict [(''packageId'', PStr ''Foo''), (''displayName'', PStr ''first'')],
      PStr ''x'',
      PDict [(''packageId'', PStr ''foo''), (''displayName'', PStr ''second'')]])]" and tv = "''1.5''"
      and major = "''1''" and minor = "''5''"]
  have dc: "differ_only_by_case ''Foo'' ''foo''"
    by (simp add: differ_only_by_case_def same_letter_def)
  have prem: "[PDict [(''packageId'', PStr ''Foo''), (''displayName'', PStr ''first'')],
      PStr ''x'',
      PDict [(''packageId'', PStr ''foo''), (''displayName'', PStr ''second'')]] = [] @ PDict [(''packageId'', PStr ''Foo''), (''displayName'', PStr ''first'')] # [PStr ''x''] @ PDict [(''packageId'', PStr ''foo''), (''displayName'', PStr ''second'')] # []
      \<and> dict_get [(''packageId'', PStr ''Foo''), (''displayName'', PStr ''first'')] ''packageId'' (PBool False) = PStr ''Foo''
      \<and> dict_get [(''packageId'', PStr ''foo''), (''displayName'', PStr ''second'')] ''packageId'' (PBool False) = PStr ''foo''
      \<and> differ_only_by_case ''Foo'' ''foo''"
    using dc by (simp add: dict_get_def)
  note col = th [THEN conjunct2, THEN conjunct2, THEN conjunct2, THEN conjunct2, THEN conjunct2,
      THEN conjunct2, THEN conjunct2, THEN conjunct1, rule_format, OF prem]
  have d: "distinct (map fst [(Some ''foo'', \<lparr>dep_package_id = Some ''foo'', dep_name = Some ''first'', dep_workshop_url = None\<rparr>)])"
    by (rule th [THEN conjunct1])
  have c1: "length (filter (\<lambda>e. fst e = Some (CaseInsensitiveStr ''Foo'')) [(Some ''foo'', \<lparr>dep_package_id = Some ''foo'', dep_name = Some ''first'', dep_workshop_url = None\<rparr>)]) = 1"
    by (rule col [THEN conjunct1])
  have c2: "DuplicateDependency (Some (CaseInsensitiveStr ''foo'')) \<in> set [InvalidDependency (PStr ''x''), DuplicateDependency (Some ''foo'')]"
    by (rule col [THEN conjunct2, THEN conjunct1])
  have c3: "map_of [(Some ''foo'', \<lparr>dep_package_id = Some ''foo'', dep_name = Some ''first'', dep_workshop_url = None\<rparr>)] (Some (CaseInsensitiveStr ''Foo''))
       = Some (create_mod_dependency [(''packageId'', PStr ''Foo''), (''displayName'', PStr ''first'')])"
    using col [THEN conjunct2, THEN conjunct2] by simp
  have r: "create_base_rules
        [(''modDependencies'', PList
           [PDict [(''packageId'', PStr ''Foo''), (''displayName'', PStr ''first'')],
      PStr ''x'',
      PDict [(''packageId'', PStr ''foo''), (''displayName'', PStr ''second'')]])]
        ''1.5''
       = Inr (\<lparr>dependencies = [(Some ''foo'', \<lparr>dep_package_id = Some ''foo'', dep_name = Some ''first'', dep_workshop_url = None\<rparr>)],
                 load_before = {}, load_after = {}, incompatible_with = {}\<rparr>,
              [InvalidDependency (PStr ''x''), DuplicateDependency (Some ''foo'')])"
    by (simp add: create_base_rules_def extend_versioned_def as_list_def match_version_def
        load_operations_def load_operations_list_def CaseInsensitiveSet_def BaseRules_new_def
        dict_get_def h del: dependency_loop.simps)
  have p: "parse_optional_fill
        [(''modDependencies'', PList
           [PDict [(''packageId'', PStr ''Foo''), (''displayName'', PStr ''first'')],
      PStr ''x'',
      PDict [(''packageId'', PStr ''foo''), (''displayName'', PStr ''second'')]])]
        (RuledMod_new, []) ''1.5''
       = Inr (RuledMod_new\<lparr>about_rules := Some
                \<lparr>dependencies = [(Some ''foo'', \<lparr>dep_package_id = Some ''foo'', dep_name = Some ''first'', dep_workshop_url = None\<rparr>)],
                 load_before = {}, load_after = {}, incompatible_with = {}\<rparr>\<rparr>,
              [InvalidDependency (PStr ''x''), DuplicateDependency (Some ''foo'')])"
    by (simp add: parse_optional_fill_def r field_value_def dict_get_def opt_str_def)
  have v: "valid RuledMod_new" by (simp add: RuledMod_new_def ListedMod_new_def)
  show ?thesis
    by (intro conjI) (fact h, fact dc, fact d, fact c1, fact c2, fact c3, fact p, fact v)
qed

text \<open>
  Claim C2. The claim asks for \<open>load_before == {"a", "b", "c"}\<close> from
  \<open>loadBefore: ["A"]\<close>, \<open>loadBeforeByVersion: {"v1.5": ["B"]}\<close> and
  \<open>forceLoadBefore: ["C"]\<close> against the target \<open>1.5\<close>. The code gives
  \<open>{"a", "c"}\<close>: \<open>value_extractor\<close> enters the mapping with the single label
  \<open>v1.5\<close> and returns the list under it, the test \<open>isinstance(loadByVersion, dict)\<close>
  of line 297 fails, and \<open>match_version\<close> is never asked. With two labels whose
  values are strings the mapping is kept and the matching entry is merged.
\<close>

theorem versioned_entries_skipped:
  "value_extractor (PDict [(''v1.5'', PList [PStr ''B''])]) = PList [PStr ''B'']
   \<and> load_operations_list
        [(''loadBefore'', PList [PStr ''A'']),
         (''loadBeforeByVersion'', PDict [(''v1.5'', PList [PStr ''B''])]),
         (''forceLoadBefore'', PList [PStr ''C''])]
        ''loadBefore'' ''forceLoadBefore'' ''1.5''
      = Inr [PStr ''A'', PStr ''C'']
   \<and> create_base_rules
        [(''loadBefore'', PList [PStr ''A'']),
         (''loadBeforeByVersion'', PDict [(''v1.5'', PList [PStr ''B''])]),
         (''forceLoadBefore'', PList [PStr ''C''])]
        ''1.5''
      = Inr (\<lparr>dependencies = [], load_before = {''a'', ''c''}, load_after = {},
               incompatible_with = {}\<rparr>, [])
   \<and> ''b'' \<notin> {''a'', ''c''}
   \<and> load_operations
        [(''loadBefore'', PList [PStr ''A'']),
         (''loadBeforeByVersion'', PDict [(''v1.5'', PStr ''B''), (''v1.4'', PStr ''D'')]),
         (''forceLoadBefore'', PList [PStr ''C''])]
        ''loadBefore'' ''forceLoadBefore'' ''1.5''
      = Inr {''a'', ''b'', ''c''}"
proof -
  have a: "value_extractor (PDict [(''v1.5'', PList [PStr ''B''])]) = PList [PStr ''B'']"
    by simp
  have b: "load_operations_list
        [(''loadBefore'', PList [PStr ''A'']),
         (''loadBeforeByVersion'', PDict [(''v1.5'', PList [PStr ''B''])]),
         (''forceLoadBefore'', PList [PStr ''C''])]
        ''loadBefore'' ''forceLoadBefore'' ''1.5''
      = Inr [PStr ''A'', PStr ''C'']"
    by (simp add: load_operations_list_def extend_versioned_def as_list_def dict_get_def)
  have c: "create_base_rules
        [(''loadBefore'', PList [PStr ''A'']),
         (''loadBeforeByVersion'', PDict [(''v1.5'', PList [PStr ''B''])]),
         (''forceLoadBefore'', PList [PStr ''C''])]
        ''1.5''
      = Inr (\<lparr>dependencies = [], load_before = {''a'', ''c''}, load_after = {},
               incompatible_with = {}\<rparr>, [])"
    by (simp add: create_base_rules_def load_operations_def b extend_versioned_def as_list_def
        match_version_def load_operations_list_def CaseInsensitiveSet_def BaseRules_new_def
        dict_get_def CaseInsensitiveStr_def lower_char_def)
  have d: "''b'' \<notin> {''a'', ''c''}" by simp
  have m: "match_version [(''v1.5'', PStr ''B''), (''v1.4'', PStr ''D'')] ''1.5'' False
           = Inr (True, Some [PStr ''B''])"
    by (simp add: match_version_def version_regex_def re_match_def read_atom_def quant_of_def
        ascii_alnum_def)
  have e: "load_operations
        [(''loadBefore'', PList [PStr ''A'']),
         (''loadBeforeByVersion'', PDict [(''v1.5'', PStr ''B''), (''v1.4'', PStr ''D'')]),
         (''forceLoadBefore'', PList [PStr ''C''])]
        ''loadBefore'' ''forceLoadBefore'' ''1.5''
      = Inr {''a'', ''b'', ''c''}"
    by (simp add: load_operations_def load_operations_list_def extend_versioned_def as_list_def
        dict_get_def m CaseInsensitiveSet_def CaseInsensitiveStr_def lower_char_def)
  show ?thesis using a b c d e by blast
qed

end
